theory Spec2Isabelle
  imports Main "HOL-Library.Word" "HOL-Library.Char_ord" "HOL-Library.List_Lexorder"
begin

unbundle bit_operations_syntax

section \<open>Data model of \<open>processor/processor.go\<close>\<close>

text \<open>
  A Go \<open>string\<close> is a sequence of bytes; it is modelled by \<^typ>\<open>string\<close>, whose characters
  are 8-bit. \<open>v[0]\<close> read as a \<open>byte\<close> is \<^term>\<open>of_char c :: 8 word\<close>.
\<close>

type_synonym byte = "8 word"

subsection \<open>The automaton\<close>

text \<open>
  \<open>ProcessConstants\<close> builds automata of the type \<open>Trie\<close> with the methods \<open>Insert\<close> and
  \<open>InsertClose\<close> and the token tags \<open>T_STRING\<close>, \<open>T_SLCOMMENT\<close>, \<open>T_MLCOMMENT\<close> and
  \<open>T_COMPLEXITY\<close>. They are declared outside \<open>processor.go\<close>.
\<close>

text \<open>Modelled from the spec: the four token categories, under the names the code uses.\<close>

datatype token_type = T_STRING | T_SLCOMMENT | T_MLCOMMENT | T_COMPLEXITY

text \<open>
  Modelled from the spec: the open/close role of a terminal tag. A token of an unpaired
  category is \<open>Plain\<close>.
\<close>

datatype role = Plain | Opener | Closer

text \<open>
  Modelled from the spec: the type \<open>Trie\<close>, a byte-indexed node with a terminal tag
  (category and role); the open terminal of a paired token references the closer
  automaton built from the close token.
\<close>

datatype Trie =
  Trie (Type: "(token_type \<times> role) option") (Close: "Trie option") (Table: "char \<Rightarrow> Trie option")

text \<open>Go's \<open>&Trie{}\<close>: no tag, no closer, every table entry nil.\<close>

definition emptyTrie :: Trie where
  "emptyTrie = Trie None None (\<lambda>_. None)"

text \<open>
  Modelled from the spec: the walk both insertions share. The path of the token is
  walked from the root, a missing child is created empty, and the node where the token
  ends is marked. The Go methods update the automaton in place; the model returns the
  updated automaton.
\<close>

fun insertPath :: "(Trie \<Rightarrow> Trie) \<Rightarrow> string \<Rightarrow> Trie \<Rightarrow> Trie" where
  "insertPath mark [] node = mark node"
| "insertPath mark (c # cs) (Trie ty cl tb) =
     Trie ty cl (tb(c \<mapsto> insertPath mark cs (case tb c of None \<Rightarrow> emptyTrie | Some child \<Rightarrow> child)))"

text \<open>
  Modelled from the spec: the insertion of a token path that ends in a given tag; the
  closer and the table of the end node are kept.
\<close>

definition Insert' :: "token_type \<times> role \<Rightarrow> string \<Rightarrow> Trie \<Rightarrow> Trie" where
  "Insert' tag token root = insertPath (\<lambda>node. Trie (Some tag) (Close node) (Table node)) token root"

text \<open>
  Modelled from the spec: the method \<open>Insert\<close>, which inserts a plain token path ending in
  the tag.
\<close>

definition Insert :: "token_type \<Rightarrow> string \<Rightarrow> Trie \<Rightarrow> Trie" where
  "Insert tokenType token root = Insert' (tokenType, Plain) token root"

text \<open>
  Modelled from the spec: the method \<open>InsertClose\<close>, which inserts the path of the open
  token and attaches to its terminal node a second automaton built from the close token.
\<close>

definition InsertClose :: "token_type \<Rightarrow> string \<Rightarrow> string \<Rightarrow> Trie \<Rightarrow> Trie" where
  "InsertClose tokenType openToken closeToken root =
     insertPath
       (\<lambda>node. Trie (Some (tokenType, Opener))
                     (Some (Insert' (tokenType, Closer) closeToken emptyTrie)) (Table node))
       openToken root"

text \<open>
  The tag found at the end of the path of a byte string, \<open>None\<close> when the path is absent
  or ends in a node without tag: whether, and as what, the automaton holds the byte
  string as a token.
\<close>

fun tagAt :: "Trie \<Rightarrow> string \<Rightarrow> (token_type \<times> role) option" where
  "tagAt node [] = Type node"
| "tagAt node (c # cs) = (case Table node c of None \<Rightarrow> None | Some child \<Rightarrow> tagAt child cs)"

subsection \<open>Language definitions and compiled features\<close>

text \<open>
  Modelled from the spec: the struct \<open>Language\<close> is declared outside \<open>processor.go\<close>. The
  fields are those \<open>ProcessConstants\<close> and \<open>printLanguages\<close> read; the entries of
  \<open>MultiLine\<close> and \<open>Quotes\<close> are (open, close) pairs, read as \<open>v[0]\<close> and \<open>v[1]\<close>.
\<close>

record Language =
  Extensions :: "string list"
  ComplexityChecks :: "string list"
  LineComment :: "string list"
  MultiLine :: "(string \<times> string) list"
  Quotes :: "(string \<times> string) list"
  NestedMultiLine :: bool

text \<open>
  The struct \<open>LanguageFeature\<close>, declared outside \<open>processor.go\<close>; the fields and their
  types are those of the composite literal in \<open>ProcessConstants\<close>. Its field
  \<open>Complexity\<close> is named \<open>Complexity_trie\<close> here, since the package flag \<open>Complexity\<close>
  has the same name.
\<close>

record LanguageFeature =
  Complexity_trie :: Trie
  MultiLineComments :: Trie
  SingleLineComments :: Trie
  Strings :: Trie
  Tokens :: Trie
  Nested :: bool
  ComplexityCheckMask :: byte
  MultiLineCommentMask :: byte
  SingleLineCommentMask :: byte
  StringCheckMask :: byte
  ProcessMask :: byte

text \<open>
  The Go map \<open>map[string]Language\<close> is given by its entries, an association list whose
  keys are distinct.
\<close>

type_synonym database = "(string \<times> Language) list"

subsection \<open>Package state\<close>

text \<open>The package-level variables; the capacities and counts are Go \<open>int\<close>s.\<close>

record globals =
  Files :: bool
  Languages :: bool
  Verbose :: bool
  Debug :: bool
  Trace :: bool
  Duplicates :: bool
  Complexity :: bool
  More :: bool
  Cocomo :: bool
  DisableCheckBinary :: bool
  SortBy :: string
  Exclude :: string
  Format :: string
  FileOutput :: string
  PathBlacklist :: "string list"
  FileListQueueSize :: int
  FileReadJobQueueSize :: int
  FileReadJobWorkers :: int
  FileReadContentJobQueueSize :: int
  FileProcessJobQueueSize :: int
  FileProcessJobWorkers :: int
  FileSummaryJobQueueSize :: int
  WhiteListExtensions :: "string list"
  AverageWage :: int
  GcFileCount :: int
  gcPercent :: int
  DirFilePaths :: "string list"
  ExtensionToLanguage :: "string \<rightharpoonup> string"
  LanguageFeatures :: "string \<rightharpoonup> LanguageFeature"

subsection \<open>Effects, panics and the environment\<close>

text \<open>
  A call of \<open>fmt.Sprintf\<close> is kept as its format string and arguments. \<open>ArgElapsed\<close>
  stands for a difference of two clock readings, which is not modelled.
\<close>

datatype arg =
  ArgBool bool | ArgStr string | ArgStrs "string list" | ArgInt int | ArgErr string | ArgElapsed

datatype message = Text string | Sprintf string "arg list"

datatype panic = Panic message | RuntimeError string

text \<open>The three channels \<open>Process\<close> makes, named by the variables that hold them.\<close>

datatype chan = fileListQueue | fileReadContentJobQueue | fileSummaryJobQueue

text \<open>
  What the functions do beyond updating the package state, in program order: the lines
  they print, the channels they make, the goroutines they start, the file they write.
\<close>

datatype effect =
  PrintTrace message
| PrintDebug message
| Println message
| MakeChan chan int
| GoWalkDirectoryParallel string chan
| GoFileReaderWorker chan chan
| GoFileProcessorWorker chan chan
| FileSummarize chan
| WriteFile string string nat

text \<open>
  What \<open>processor.go\<close> takes from outside: the constant \<open>languages\<close> of \<open>constants.go\<close>, the
  library functions \<open>base64.StdEncoding.DecodeString\<close>, \<open>json.Unmarshal\<close> (into a
  \<open>map[string]Language\<close>), \<open>strings.ToLower\<close> and \<open>runtime.NumCPU\<close>, and the value
  \<open>fileSummarize\<close> returns. \<open>makechanError\<close> is the outcome of \<open>make(chan *FileJob, n)\<close>
  for a capacity \<open>n\<close> that is not negative: the runtime error the call ends in, or
  \<open>None\<close> when it returns a channel. The runtime refuses with
  \<open>makechan: size out of range\<close> a capacity whose buffer exceeds the allocation limit of
  the platform, and it ends the program when the buffer cannot be allocated; both depend
  on the platform. Go does not specify the order in which \<open>range\<close> visits the
  entries of a map, and the order may differ from one loop to the next: \<open>range1\<close> and
  \<open>range2\<close> give the order of the first and second loop of \<open>ProcessConstants\<close>, \<open>range3\<close>
  that of the loop of \<open>printLanguages\<close>.
\<close>

record env =
  languages :: string
  DecodeString :: "string \<Rightarrow> string + string"
  Unmarshal :: "string \<Rightarrow> string + database"
  range1 :: "database \<Rightarrow> database"
  range2 :: "database \<Rightarrow> database"
  range3 :: "database \<Rightarrow> database"
  ToLower :: "string \<Rightarrow> string"
  NumCPU :: int
  makechanError :: "int \<Rightarrow> string option"
  fileSummarize :: "chan \<Rightarrow> string"

text \<open>A \<open>range\<close> over a map visits every entry once.\<close>

definition visits :: "database \<Rightarrow> database \<Rightarrow> bool" where
  "visits order database \<longleftrightarrow> set order = set database \<and> distinct (map fst order)"

text \<open>The initial values of the package variables.\<close>

definition initial :: "env \<Rightarrow> globals" where
  "initial e =
     \<lparr> Files = False, Languages = False, Verbose = False, Debug = False, Trace = False,
       Duplicates = False, Complexity = False, More = False, Cocomo = False,
       DisableCheckBinary = False, SortBy = '''', Exclude = '''', Format = '''',
       FileOutput = '''', PathBlacklist = [],
       FileListQueueSize = NumCPU e, FileReadJobQueueSize = NumCPU e,
       FileReadJobWorkers = NumCPU e * 4, FileReadContentJobQueueSize = NumCPU e,
       FileProcessJobQueueSize = NumCPU e, FileProcessJobWorkers = NumCPU e * 4,
       FileSummaryJobQueueSize = NumCPU e, WhiteListExtensions = [],
       AverageWage = 56286, GcFileCount = 10000, gcPercent = - 1,
       DirFilePaths = [], ExtensionToLanguage = Map.empty, LanguageFeatures = Map.empty \<rparr>"

section \<open>The functions of \<open>processor.go\<close>\<close>

subsection \<open>\<open>loadDatabase\<close>\<close>

definition loadDatabase :: "env \<Rightarrow> globals \<Rightarrow> effect list \<times> (panic + database)" where
  "loadDatabase e g =
     (case DecodeString e (languages e) of
        Inl err \<Rightarrow> ([], Inl (Panic (Sprintf ''failed to base64 decode languages: %v'' [ArgErr err])))
      | Inr data \<Rightarrow>
          (case Unmarshal e data of
             Inl err \<Rightarrow> ([], Inl (Panic (Sprintf ''languages json invalid: %v'' [ArgErr err])))
           | Inr database \<Rightarrow>
               (if Trace g then [PrintTrace (Sprintf ''milliseconds unmarshal: %d'' [ArgElapsed])]
                else [],
                Inr database)))"

subsection \<open>\<open>ProcessConstants\<close>\<close>

text \<open>The first loop: \<open>ExtensionToLanguage[ext] = name\<close> for every extension of every entry.\<close>

fun extensionsLoop :: "string \<Rightarrow> string list \<Rightarrow> (string \<rightharpoonup> string) \<Rightarrow> (string \<rightharpoonup> string)" where
  "extensionsLoop name [] m = m"
| "extensionsLoop name (ext # exts) m = extensionsLoop name exts (m(ext \<mapsto> name))"

fun extensionToLanguageLoop :: "database \<Rightarrow> (string \<rightharpoonup> string) \<Rightarrow> (string \<rightharpoonup> string)" where
  "extensionToLanguageLoop [] m = m"
| "extensionToLanguageLoop ((name, value) # rest) m =
     extensionToLanguageLoop rest (extensionsLoop name (Extensions value) m)"

text \<open>
  The loops over the tokens of one category. The state is the category mask, the
  category automaton and \<open>tokenTrie\<close>. \<open>v[0]\<close> of an empty string panics.
  \<open>insertLoop T_COMPLEXITY (\<not> Complexity)\<close> is the loop over \<open>ComplexityChecks\<close>, where
  the insertion into \<open>tokenTrie\<close> is guarded by \<open>!Complexity\<close>; \<open>insertLoop T_SLCOMMENT True\<close>
  is the loop over \<open>LineComment\<close>.
\<close>

fun insertLoop ::
  "token_type \<Rightarrow> bool \<Rightarrow> string list \<Rightarrow> byte \<times> Trie \<times> Trie \<Rightarrow> panic + byte \<times> Trie \<times> Trie" where
  "insertLoop ty intoTokens [] s = Inr s"
| "insertLoop ty intoTokens (v # vs) (bitmask, trie, tokenTrie) =
     (case v of
        [] \<Rightarrow> Inl (RuntimeError ''index out of range'')
      | c # _ \<Rightarrow>
          insertLoop ty intoTokens vs
            (bitmask OR of_char c,
             Insert ty v trie,
             if intoTokens then Insert ty v tokenTrie else tokenTrie))"

text \<open>
  \<open>insertCloseLoop T_MLCOMMENT\<close> is the loop over \<open>MultiLine\<close>, \<open>insertCloseLoop T_STRING\<close>
  the loop over \<open>Quotes\<close>; \<open>v[0][0]\<close> of an empty open token panics.
\<close>

fun insertCloseLoop ::
  "token_type \<Rightarrow> (string \<times> string) list \<Rightarrow> byte \<times> Trie \<times> Trie \<Rightarrow> panic + byte \<times> Trie \<times> Trie" where
  "insertCloseLoop ty [] s = Inr s"
| "insertCloseLoop ty ((v0, v1) # vs) (bitmask, trie, tokenTrie) =
     (case v0 of
        [] \<Rightarrow> Inl (RuntimeError ''index out of range'')
      | c # _ \<Rightarrow>
          insertCloseLoop ty vs
            (bitmask OR of_char c,
             InsertClose ty v0 v1 trie,
             InsertClose ty v0 v1 tokenTrie))"

text \<open>The body of the second loop, for one entry; the first argument is the flag \<open>Complexity\<close>.\<close>

definition languageFeature :: "bool \<Rightarrow> Language \<Rightarrow> panic + LanguageFeature" where
  "languageFeature complexity value =
     (case insertLoop T_COMPLEXITY (\<not> complexity) (ComplexityChecks value) (0, emptyTrie, emptyTrie) of
        Inl p \<Rightarrow> Inl p
      | Inr (complexityMask, complexityTrie, tokenTrie1) \<Rightarrow>
     (case insertLoop T_SLCOMMENT True (LineComment value) (0, emptyTrie, tokenTrie1) of
        Inl p \<Rightarrow> Inl p
      | Inr (singleLineCommentMask, slCommentTrie, tokenTrie2) \<Rightarrow>
     (case insertCloseLoop T_MLCOMMENT (MultiLine value) (0, emptyTrie, tokenTrie2) of
        Inl p \<Rightarrow> Inl p
      | Inr (multiLineCommentMask, mlCommentTrie, tokenTrie3) \<Rightarrow>
     (case insertCloseLoop T_STRING (Quotes value) (0, emptyTrie, tokenTrie3) of
        Inl p \<Rightarrow> Inl p
      | Inr (stringMask, stringTrie, tokenTrie) \<Rightarrow>
          Inr \<lparr> Complexity_trie = complexityTrie,
                MultiLineComments = mlCommentTrie,
                SingleLineComments = slCommentTrie,
                Strings = stringTrie,
                Tokens = tokenTrie,
                Nested = NestedMultiLine value,
                ComplexityCheckMask = complexityMask,
                MultiLineCommentMask = multiLineCommentMask,
                SingleLineCommentMask = singleLineCommentMask,
                StringCheckMask = stringMask,
                ProcessMask =
                  (((if \<not> complexity then 0 OR complexityMask else 0)
                     OR singleLineCommentMask) OR multiLineCommentMask) OR stringMask \<rparr>))))"

text \<open>The second loop: \<open>LanguageFeatures[name] = LanguageFeature{...}\<close> for every entry.\<close>

fun languageFeaturesLoop ::
  "bool \<Rightarrow> database \<Rightarrow> (string \<rightharpoonup> LanguageFeature) \<Rightarrow> panic + (string \<rightharpoonup> LanguageFeature)" where
  "languageFeaturesLoop complexity [] m = Inr m"
| "languageFeaturesLoop complexity ((name, value) # rest) m =
     (case languageFeature complexity value of
        Inl p \<Rightarrow> Inl p
      | Inr f \<Rightarrow> languageFeaturesLoop complexity rest (m(name \<mapsto> f)))"

definition ProcessConstants :: "env \<Rightarrow> globals \<Rightarrow> effect list \<times> (panic + globals)" where
  "ProcessConstants e g =
     (case loadDatabase e g of
        (out0, Inl p) \<Rightarrow> (out0, Inl p)
      | (out0, Inr database) \<Rightarrow>
          (let g1 = g\<lparr>ExtensionToLanguage :=
                       extensionToLanguageLoop (range1 e database) (ExtensionToLanguage g)\<rparr>;
               out1 = out0 @
                 (if Trace g1
                  then [PrintTrace (Sprintf ''nanoseconds build extension to language: %d'' [ArgElapsed])]
                  else [])
           in case languageFeaturesLoop (Complexity g1) (range2 e database) (LanguageFeatures g1) of
                Inl p \<Rightarrow> (out1, Inl p)
              | Inr features \<Rightarrow>
                  (out1 @
                     (if Trace g1
                      then [PrintTrace (Sprintf ''milliseconds build language features: %d'' [ArgElapsed])]
                      else []),
                   Inr (g1\<lparr>LanguageFeatures := features\<rparr>))))"

subsection \<open>\<open>processFlags\<close>\<close>

definition processFlags :: "globals \<Rightarrow> effect list \<times> globals" where
  "processFlags g =
     (let g1 = (if More g \<and> Complexity g then g\<lparr>Complexity := False\<rparr> else g)
      in (if Debug g1
          then [PrintDebug (Sprintf ''Path Black List: %v'' [ArgStrs (PathBlacklist g1)]),
                PrintDebug (Sprintf ''Sort By: %s'' [ArgStr (SortBy g1)]),
                PrintDebug (Sprintf ''White List: %v'' [ArgStrs (WhiteListExtensions g1)]),
                PrintDebug (Sprintf ''Files Output: %t'' [ArgBool (Files g1)]),
                PrintDebug (Sprintf ''Verbose: %t'' [ArgBool (Verbose g1)]),
                PrintDebug (Sprintf ''Duplicates Detection: %t'' [ArgBool (Duplicates g1)]),
                PrintDebug (Sprintf ''Complexity Calculation: %t'' [ArgBool (\<not> Complexity g1)]),
                PrintDebug (Sprintf ''Wide: %t'' [ArgBool (More g1)]),
                PrintDebug (Sprintf ''Average Wage: %d'' [ArgInt (AverageWage g1)]),
                PrintDebug (Sprintf ''Cocomo: %t'' [ArgBool (\<not> Cocomo g1)])]
          else [],
          g1))"

subsection \<open>\<open>printLanguages\<close>\<close>

fun Join :: "string list \<Rightarrow> string \<Rightarrow> string" where
  "Join [] sep = []"
| "Join [s] sep = s"
| "Join (s # t # ss) sep = s @ sep @ Join (t # ss) sep"

text \<open>
  \<open>sort.Slice\<close> orders the names by their lower-case form, compared bytewise. It is not
  stable; names with equal lower-case form keep here the order in which \<open>range\<close> gave
  them, which is itself unspecified. A name that is no key reads the zero \<open>Language\<close>.
\<close>

definition printLanguages :: "env \<Rightarrow> globals \<Rightarrow> effect list \<times> (panic + unit)" where
  "printLanguages e g =
     (case loadDatabase e g of
        (out0, Inl p) \<Rightarrow> (out0, Inl p)
      | (out0, Inr database) \<Rightarrow>
          (let names = sort_key (ToLower e) (map fst (range3 e database))
           in (out0 @
               map (\<lambda>name. Println (Sprintf ''%s (%s)''
                      [ArgStr name,
                       ArgStr (Join (case map_of database name of
                                       None \<Rightarrow> [] | Some l \<Rightarrow> Extensions l) '','')]))
                   names,
               Inr ())))"

subsection \<open>\<open>Process\<close>\<close>

text \<open>
  \<open>make(chan *FileJob, n)\<close> panics when \<open>n\<close> is negative, and ends in the runtime error
  of the environment when \<open>n\<close> is more than the platform makes.
\<close>

definition makeChan :: "env \<Rightarrow> chan \<Rightarrow> int \<Rightarrow> panic + effect" where
  "makeChan e c n =
     (if n < 0 then Inl (RuntimeError ''makechan: size out of range'')
      else case makechanError e n of
             Some err \<Rightarrow> Inl (RuntimeError err)
           | None \<Rightarrow> Inr (MakeChan c n))"

text \<open>
  The result is the effects in program order and either the panic that ended the run or
  the package state on return. A goroutine started by \<open>go\<close> and the call of
  \<open>fileSummarize\<close> are recorded with their arguments; what they do is outside
  \<open>processor.go\<close>. The file mode \<open>0600\<close> is octal, 384; the error that
  \<open>ioutil.WriteFile\<close> returns is dropped by the code.
\<close>

definition Process :: "env \<Rightarrow> globals \<Rightarrow> effect list \<times> (panic + globals)" where
  "Process e g =
     (if Languages g then
        (case printLanguages e g of
           (out, Inl p) \<Rightarrow> (out, Inl p)
         | (out, Inr _) \<Rightarrow> (out, Inr g))
      else
        (case ProcessConstants e g of
           (out0, Inl p) \<Rightarrow> (out0, Inl p)
         | (out0, Inr g1) \<Rightarrow>
        (case processFlags g1 of (out1, g2) \<Rightarrow>
        (let g3 = (if length (DirFilePaths g2) = 0
                   then g2\<lparr>DirFilePaths := DirFilePaths g2 @ [''.'']\<rparr> else g2);
             g4 = g3\<lparr>SortBy := ToLower e (SortBy g3)\<rparr>;
             out2 = out0 @ out1 @
               (if Debug g4
                then [PrintDebug (Sprintf ''NumCPU: %d'' [ArgInt (NumCPU e)]),
                      PrintDebug (Sprintf ''SortBy: %s'' [ArgStr (SortBy g4)]),
                      PrintDebug (Sprintf ''PathBlacklist: %v'' [ArgStrs (PathBlacklist g4)])]
                else [])
         in
        (case makeChan e fileListQueue (FileListQueueSize g4) of
           Inl p \<Rightarrow> (out2, Inl p)
         | Inr m1 \<Rightarrow>
        (case makeChan e fileReadContentJobQueue (FileReadContentJobQueueSize g4) of
           Inl p \<Rightarrow> (out2 @ [m1], Inl p)
         | Inr m2 \<Rightarrow>
        (case makeChan e fileSummaryJobQueue (FileSummaryJobQueueSize g4) of
           Inl p \<Rightarrow> (out2 @ [m1, m2], Inl p)
         | Inr m3 \<Rightarrow>
        (case DirFilePaths g4 of
           [] \<Rightarrow> (out2 @ [m1, m2, m3], Inl (RuntimeError ''index out of range''))
         | root # _ \<Rightarrow>
             (let result = fileSummarize e fileSummaryJobQueue
              in (out2 @ [m1, m2, m3] @
                  [GoWalkDirectoryParallel root fileListQueue,
                   GoFileReaderWorker fileListQueue fileReadContentJobQueue,
                   GoFileProcessorWorker fileReadContentJobQueue fileSummaryJobQueue,
                   FileSummarize fileSummaryJobQueue] @
                  (if FileOutput g4 = '''' then [Println (Text result)]
                   else [WriteFile (FileOutput g4) result 384,
                         Println (Text (''results written to '' @ FileOutput g4))]),
                  Inr g4))))))))))"

section \<open>Notions used in the statements\<close>

text \<open>The first byte of a token, when it has one.\<close>

definition firstByte :: "string \<Rightarrow> byte option" where
  "firstByte v = (case v of [] \<Rightarrow> None | c # _ \<Rightarrow> Some (of_char c))"

text \<open>The language definitions on which no \<open>v[0]\<close> and no \<open>v[0][0]\<close> is out of range.\<close>

definition tokensNonEmpty :: "Language \<Rightarrow> bool" where
  "tokensNonEmpty value \<longleftrightarrow>
     (\<forall>v\<in>set (ComplexityChecks value). v \<noteq> []) \<and>
     (\<forall>v\<in>set (LineComment value). v \<noteq> []) \<and>
     (\<forall>v\<in>set (MultiLine value). fst v \<noteq> []) \<and>
     (\<forall>v\<in>set (Quotes value). fst v \<noteq> [])"

text \<open>The capacities for which \<open>make(chan *FileJob, n)\<close> returns a channel.\<close>

definition allocates :: "env \<Rightarrow> int \<Rightarrow> bool" where
  "allocates e n \<longleftrightarrow> 0 \<le> n \<and> makechanError e n = None"

text \<open>
  The closer automaton that the node at the end of the path of a byte string references,
  if there is one.
\<close>

fun closeAt :: "Trie \<Rightarrow> string \<Rightarrow> Trie option" where
  "closeAt node [] = Close node"
| "closeAt node (c # cs) = (case Table node c of None \<Rightarrow> None | Some child \<Rightarrow> closeAt child cs)"

text \<open>
  The language of the entry that a visiting order visits last among the entries that
  declare an extension, if any entry declares it.
\<close>

fun lastDeclaring :: "database \<Rightarrow> string \<Rightarrow> string option" where
  "lastDeclaring [] ext = None"
| "lastDeclaring ((name, value) # rest) ext =
     (case lastDeclaring rest ext of
        Some later \<Rightarrow> Some later
      | None \<Rightarrow> if ext \<in> set (Extensions value) then Some name else None)"

text \<open>The languages of a table that declare an extension.\<close>

definition declaring :: "database \<Rightarrow> string \<Rightarrow> string set" where
  "declaring database ext = {name. \<exists>value. (name, value) \<in> set database \<and> ext \<in> set (Extensions value)}"

text \<open>Kinds of effects: printed lines, channels made, pipeline stages started, walker starts.\<close>

definition isPrint :: "effect \<Rightarrow> bool" where
  "isPrint x = (case x of PrintTrace _ \<Rightarrow> True | PrintDebug _ \<Rightarrow> True | Println _ \<Rightarrow> True | _ \<Rightarrow> False)"

definition isMakeChan :: "effect \<Rightarrow> bool" where
  "isMakeChan x = (case x of MakeChan _ _ \<Rightarrow> True | _ \<Rightarrow> False)"

definition isWalk :: "effect \<Rightarrow> bool" where
  "isWalk x = (case x of GoWalkDirectoryParallel _ _ \<Rightarrow> True | _ \<Rightarrow> False)"

definition isStage :: "effect \<Rightarrow> bool" where
  "isStage x =
     (case x of
        GoWalkDirectoryParallel _ _ \<Rightarrow> True
      | GoFileReaderWorker _ _ \<Rightarrow> True
      | GoFileProcessorWorker _ _ \<Rightarrow> True
      | FileSummarize _ \<Rightarrow> True
      | _ \<Rightarrow> False)"

text \<open>
  Sample inputs for the concrete instances below: a language definition, and an
  environment whose table decodes to a given database, whose \<open>range\<close> loops visit
  the entries in the order of the list, and whose \<open>make\<close> refuses the capacities above
  \<open>2^45 - 12\<close>, the bound of the size check for a channel of pointers on 64-bit Linux
  (an allocation limit of \<open>2^48\<close> bytes, less the 96 bytes of the channel header, over
  8 bytes for an element).
\<close>

definition sampleLanguage :: Language where
  "sampleLanguage =
     \<lparr> Extensions = [''go''], ComplexityChecks = [''if '', ''for ''], LineComment = [''//''],
       MultiLine = [(''/*'', ''*/'')], Quotes = [(''`'', ''`'')], NestedMultiLine = False \<rparr>"

definition sampleEnv :: "database \<Rightarrow> env" where
  "sampleEnv database =
     \<lparr> languages = ''e30='', DecodeString = (\<lambda>s. Inr ''{}''),
       Unmarshal = (\<lambda>data. Inr database),
       range1 = (\<lambda>d. d), range2 = (\<lambda>d. d), range3 = (\<lambda>d. d),
       ToLower = (\<lambda>s. s), NumCPU = 4,
       makechanError =
         (\<lambda>n. if 2 ^ 45 - 12 < n then Some ''makechan: size out of range'' else None),
       fileSummarize = (\<lambda>c. ''report'') \<rparr>"

section \<open>Properties of the automaton\<close>

lemma tagAt_emptyTrie: "tagAt emptyTrie w = None"
  by (cases w) (simp_all add: emptyTrie_def)

text \<open>
  Inserting a path tags the end of that path and changes the tag of no other byte string,
  whenever the marking of the last node keeps its table.
\<close>

lemma tagAt_insertPath:
  assumes "\<And>n. Table (mark n) = Table n" and "\<And>n. Type (mark n) = Some tag"
  shows "tagAt (insertPath mark w t) v = (if v = w then Some tag else tagAt t v)"
proof (induction w arbitrary: t v)
  case Nil
  then show ?case using assms by (cases v) simp_all
next
  case (Cons c cs)
  obtain ty cl tb where t: "t = Trie ty cl tb" by (cases t)
  show ?case
  proof (cases v)
    case Nil
    then show ?thesis by (simp add: t)
  next
    case (Cons d ds)
    then show ?thesis
      by (simp add: t Cons.IH tagAt_emptyTrie split: option.split)
  qed
qed

lemma tagAt_Insert: "tagAt (Insert ty w t) v = (if v = w then Some (ty, Plain) else tagAt t v)"
  unfolding Insert_def Insert'_def by (rule tagAt_insertPath) simp_all

lemma tagAt_InsertClose:
  "tagAt (InsertClose ty w cl t) v = (if v = w then Some (ty, Opener) else tagAt t v)"
  unfolding InsertClose_def by (rule tagAt_insertPath) simp_all

section \<open>Properties of the masks\<close>

lemma and_or_keep:
  fixes x :: byte
  assumes "x AND m = x"
  shows "x AND (m OR y) = x"
proof -
  have "x AND (m OR y) = (x AND m) OR (x AND y)"
    by (simp add: bit.conj_disj_distrib)
  also have "\<dots> = x OR (x AND y)"
    by (simp add: assms)
  also have "\<dots> = x"
    by (simp add: word_ao_absorbs)
  finally show ?thesis .
qed

lemma and_or_self: "(x::byte) AND (m OR x) = x"
  by (simp add: word_ao_absorbs)

section \<open>Properties of the token loops\<close>

lemma insertLoop_tokens:
  "insertLoop ty into vs (m, t, tt) = Inr (m', t', tt') \<Longrightarrow> v \<in> set vs \<Longrightarrow> v \<noteq> []"
  by (induction vs arbitrary: m t tt) (auto split: list.splits)

lemma insertLoop_trie:
  "insertLoop ty into vs (m, t, tt) = Inr (m', t', tt') \<Longrightarrow>
   tagAt t' w = (if w \<in> set vs then Some (ty, Plain) else tagAt t w)"
proof (induction vs arbitrary: m t tt)
  case Nil
  then show ?case by simp
next
  case (Cons v vs)
  then show ?case
    by (cases v) (simp_all add: tagAt_Insert del: tagAt.simps)
qed

lemma insertLoop_tokenTrie:
  "insertLoop ty into vs (m, t, tt) = Inr (m', t', tt') \<Longrightarrow>
   tagAt tt' w = (if into \<and> w \<in> set vs then Some (ty, Plain) else tagAt tt w)"
proof (induction vs arbitrary: m t tt)
  case Nil
  then show ?case by simp
next
  case (Cons v vs)
  then show ?case
    by (cases v) (simp_all add: tagAt_Insert del: tagAt.simps)
qed

lemma insertLoop_mask:
  "insertLoop ty into vs (m, t, tt) = Inr (m', t', tt') \<Longrightarrow>
   x AND m = x \<or> (\<exists>c cs. c # cs \<in> set vs \<and> x = of_char c) \<Longrightarrow> x AND m' = x"
proof (induction vs arbitrary: m t tt)
  case Nil
  then show ?case by simp
next
  case (Cons v vs)
  from Cons.prems(1) obtain c cs where v: "v = c # cs"
    by (cases v) simp_all
  from Cons.prems(1) have run:
    "insertLoop ty into vs
       (m OR of_char c, Insert ty (c # cs) t, if into then Insert ty (c # cs) tt else tt)
       = Inr (m', t', tt')"
    by (simp add: v split del: if_split)
  from Cons.prems(2) consider "x AND m = x" | "x = of_char c"
    | "\<exists>c cs. c # cs \<in> set vs \<and> x = of_char c"
    by (auto simp: v)
  then have "x AND (m OR of_char c) = x \<or> (\<exists>c cs. c # cs \<in> set vs \<and> x = of_char c)"
  proof cases
    case 1
    then show ?thesis by (simp add: and_or_keep)
  next
    case 2
    then show ?thesis by (simp add: and_or_self)
  next
    case 3
    then show ?thesis by simp
  qed
  with Cons.IH [OF run] show ?case .
qed

lemma insertLoop_returns:
  "(\<forall>v\<in>set vs. v \<noteq> []) \<Longrightarrow> \<exists>r. insertLoop ty into vs (m, t, tt) = Inr r"
proof (induction vs arbitrary: m t tt)
  case Nil
  then show ?case by simp
next
  case (Cons v vs)
  from Cons.prems obtain c cs where v: "v = c # cs" by (cases v) simp_all
  from Cons show ?case by (simp add: v)
qed

lemma insertCloseLoop_tokens:
  "insertCloseLoop ty vs (m, t, tt) = Inr (m', t', tt') \<Longrightarrow> (v0, v1) \<in> set vs \<Longrightarrow> v0 \<noteq> []"
  by (induction vs arbitrary: m t tt) (auto split: list.splits)

lemma insertCloseLoop_trie:
  "insertCloseLoop ty vs (m, t, tt) = Inr (m', t', tt') \<Longrightarrow>
   tagAt t' w = (if w \<in> fst ` set vs then Some (ty, Opener) else tagAt t w)"
proof (induction vs arbitrary: m t tt)
  case Nil
  then show ?case by simp
next
  case (Cons v vs)
  obtain v0 v1 where v: "v = (v0, v1)" by (cases v)
  from Cons show ?case
    by (cases v0) (simp_all add: v tagAt_InsertClose del: tagAt.simps)
qed

lemma insertCloseLoop_tokenTrie:
  "insertCloseLoop ty vs (m, t, tt) = Inr (m', t', tt') \<Longrightarrow>
   tagAt tt' w = (if w \<in> fst ` set vs then Some (ty, Opener) else tagAt tt w)"
proof (induction vs arbitrary: m t tt)
  case Nil
  then show ?case by simp
next
  case (Cons v vs)
  obtain v0 v1 where v: "v = (v0, v1)" by (cases v)
  from Cons show ?case
    by (cases v0) (simp_all add: v tagAt_InsertClose del: tagAt.simps)
qed

lemma insertCloseLoop_mask:
  "insertCloseLoop ty vs (m, t, tt) = Inr (m', t', tt') \<Longrightarrow>
   x AND m = x \<or> (\<exists>c cs v1. (c # cs, v1) \<in> set vs \<and> x = of_char c) \<Longrightarrow> x AND m' = x"
proof (induction vs arbitrary: m t tt)
  case Nil
  then show ?case by simp
next
  case (Cons v vs)
  obtain v0 v1 where v: "v = (v0, v1)" by (cases v)
  from Cons.prems(1) obtain c cs where v0: "v0 = c # cs"
    by (cases v0) (simp_all add: v)
  from Cons.prems(1) have run:
    "insertCloseLoop ty vs (m OR of_char c, InsertClose ty v0 v1 t, InsertClose ty v0 v1 tt)
       = Inr (m', t', tt')"
    by (simp add: v v0)
  from Cons.prems(2) consider "x AND m = x" | "x = of_char c"
    | "\<exists>c cs v1. (c # cs, v1) \<in> set vs \<and> x = of_char c"
    by (auto simp: v v0)
  then have "x AND (m OR of_char c) = x
      \<or> (\<exists>c cs v1. (c # cs, v1) \<in> set vs \<and> x = of_char c)"
  proof cases
    case 1
    then show ?thesis by (simp add: and_or_keep)
  next
    case 2
    then show ?thesis by (simp add: and_or_self)
  next
    case 3
    then show ?thesis by simp
  qed
  with Cons.IH [OF run] show ?case .
qed

lemma insertCloseLoop_returns:
  "(\<forall>v\<in>set vs. fst v \<noteq> []) \<Longrightarrow> \<exists>r. insertCloseLoop ty vs (m, t, tt) = Inr r"
proof (induction vs arbitrary: m t tt)
  case Nil
  then show ?case by simp
next
  case (Cons v vs)
  obtain v0 v1 where v: "v = (v0, v1)" by (cases v)
  from Cons.prems obtain c cs where v0: "v0 = c # cs" by (cases v0) (simp_all add: v)
  from Cons show ?case by (simp add: v v0)
qed

section \<open>Properties of \<open>languageFeature\<close>\<close>

lemma languageFeatureE:
  assumes "languageFeature c value = Inr f"
  obtains cm ct tt1 sm st tt2 mm mt tt3 qm qt tt4 where
    "insertLoop T_COMPLEXITY (\<not> c) (ComplexityChecks value) (0, emptyTrie, emptyTrie) = Inr (cm, ct, tt1)"
    "insertLoop T_SLCOMMENT True (LineComment value) (0, emptyTrie, tt1) = Inr (sm, st, tt2)"
    "insertCloseLoop T_MLCOMMENT (MultiLine value) (0, emptyTrie, tt2) = Inr (mm, mt, tt3)"
    "insertCloseLoop T_STRING (Quotes value) (0, emptyTrie, tt3) = Inr (qm, qt, tt4)"
    "Complexity_trie f = ct" "SingleLineComments f = st" "MultiLineComments f = mt"
    "Strings f = qt" "Tokens f = tt4" "Nested f = NestedMultiLine value"
    "ComplexityCheckMask f = cm" "SingleLineCommentMask f = sm"
    "MultiLineCommentMask f = mm" "StringCheckMask f = qm"
    "ProcessMask f = (((if \<not> c then 0 OR cm else 0) OR sm) OR mm) OR qm"
  using assms unfolding languageFeature_def
  by (auto split: sum.splits prod.splits)

lemma languageFeature_ProcessMask:
  assumes "languageFeature c value = Inr f"
  shows "ProcessMask f =
    (if c then 0 else ComplexityCheckMask f) OR SingleLineCommentMask f
      OR MultiLineCommentMask f OR StringCheckMask f"
  using assms by (elim languageFeatureE) (simp add: or.assoc)

lemma languageFeature_Tokens:
  assumes "languageFeature c value = Inr f"
  shows "tagAt (Tokens f) w =
    (if w \<in> fst ` set (Quotes value) then Some (T_STRING, Opener)
     else if w \<in> fst ` set (MultiLine value) then Some (T_MLCOMMENT, Opener)
     else if w \<in> set (LineComment value) then Some (T_SLCOMMENT, Plain)
     else if \<not> c \<and> w \<in> set (ComplexityChecks value) then Some (T_COMPLEXITY, Plain)
     else None)"
  using assms
  by (elim languageFeatureE)
     (simp add: insertLoop_tokenTrie [where w = w] insertCloseLoop_tokenTrie [where w = w]
        tagAt_emptyTrie del: tagAt.simps)

lemma languageFeature_Complexity_trie:
  assumes "languageFeature c value = Inr f"
  shows "tagAt (Complexity_trie f) w =
    (if w \<in> set (ComplexityChecks value) then Some (T_COMPLEXITY, Plain) else None)"
  using assms
  by (elim languageFeatureE)
     (simp add: insertLoop_trie [where w = w] tagAt_emptyTrie del: tagAt.simps)

lemma languageFeature_tokensNonEmpty:
  assumes "languageFeature c value = Inr f"
  shows "tokensNonEmpty value"
  using assms unfolding tokensNonEmpty_def
  by (elim languageFeatureE) (auto dest: insertLoop_tokens insertCloseLoop_tokens)

lemma languageFeature_returns:
  assumes "tokensNonEmpty value"
  shows "\<exists>f. languageFeature c value = Inr f"
proof -
  from assms obtain cm ct tt1 where 1:
    "insertLoop T_COMPLEXITY (\<not> c) (ComplexityChecks value) (0, emptyTrie, emptyTrie) = Inr (cm, ct, tt1)"
    using insertLoop_returns [of "ComplexityChecks value" T_COMPLEXITY "\<not> c" 0 emptyTrie emptyTrie]
    by (auto simp: tokensNonEmpty_def)
  from assms obtain sm st tt2 where 2:
    "insertLoop T_SLCOMMENT True (LineComment value) (0, emptyTrie, tt1) = Inr (sm, st, tt2)"
    using insertLoop_returns [of "LineComment value" T_SLCOMMENT True 0 emptyTrie tt1]
    by (auto simp: tokensNonEmpty_def)
  from assms obtain mm mt tt3 where 3:
    "insertCloseLoop T_MLCOMMENT (MultiLine value) (0, emptyTrie, tt2) = Inr (mm, mt, tt3)"
    using insertCloseLoop_returns [of "MultiLine value" T_MLCOMMENT 0 emptyTrie tt2]
    by (auto simp: tokensNonEmpty_def)
  from assms obtain qm qt tt4 where 4:
    "insertCloseLoop T_STRING (Quotes value) (0, emptyTrie, tt3) = Inr (qm, qt, tt4)"
    using insertCloseLoop_returns [of "Quotes value" T_STRING 0 emptyTrie tt3]
    by (auto simp: tokensNonEmpty_def)
  show ?thesis by (simp add: languageFeature_def 1 2 3 4)
qed

lemma insertLoop_firstByte:
  assumes "insertLoop ty into vs (m, t, tt) = Inr (m', t', tt')" and "v \<in> set vs"
  shows "\<exists>b. firstByte v = Some b \<and> b AND m' = b"
proof -
  from insertLoop_tokens [OF assms] obtain c cs where v: "v = c # cs"
    by (cases v) simp_all
  have "of_char c AND m' = of_char c"
    by (rule insertLoop_mask [OF assms(1)]) (use assms(2) v in blast)
  then show ?thesis by (simp add: firstByte_def v)
qed

lemma insertCloseLoop_firstByte:
  assumes "insertCloseLoop ty vs (m, t, tt) = Inr (m', t', tt')" and "p \<in> set vs"
  shows "\<exists>b. firstByte (fst p) = Some b \<and> b AND m' = b"
proof -
  obtain v0 v1 where p: "p = (v0, v1)" by (cases p)
  from insertCloseLoop_tokens [OF assms(1), of v0 v1] assms(2) obtain c cs where v0: "v0 = c # cs"
    by (cases v0) (simp_all add: p)
  have "of_char c AND m' = of_char c"
    by (rule insertCloseLoop_mask [OF assms(1)]) (use assms(2) p v0 in blast)
  then show ?thesis by (simp add: firstByte_def p v0)
qed

lemma languageFeature_masks:
  assumes "languageFeature c value = Inr f"
  shows "v \<in> set (ComplexityChecks value) \<Longrightarrow>
           \<exists>b. firstByte v = Some b \<and> b AND ComplexityCheckMask f = b"
    and "v \<in> set (LineComment value) \<Longrightarrow>
           \<exists>b. firstByte v = Some b \<and> b AND SingleLineCommentMask f = b"
    and "p \<in> set (MultiLine value) \<Longrightarrow>
           \<exists>b. firstByte (fst p) = Some b \<and> b AND MultiLineCommentMask f = b"
    and "p \<in> set (Quotes value) \<Longrightarrow>
           \<exists>b. firstByte (fst p) = Some b \<and> b AND StringCheckMask f = b"
  using assms
  by (elim languageFeatureE; simp add: insertLoop_firstByte insertCloseLoop_firstByte)+

section \<open>Properties of the loops over the table\<close>

lemma extensionsLoop_apply:
  "extensionsLoop name exts m ext = (if ext \<in> set exts then Some name else m ext)"
  by (induction exts arbitrary: m) auto

lemma declaring_Cons:
  "declaring ((n, l) # order) ext =
     (if ext \<in> set (Extensions l) then {n} else {}) \<union> declaring order ext"
  by (auto simp: declaring_def)

lemma extensionToLanguageLoop_undeclared:
  "declaring order ext = {} \<Longrightarrow> extensionToLanguageLoop order m ext = m ext"
proof (induction order arbitrary: m)
  case Nil
  then show ?case by simp
next
  case (Cons entry order)
  obtain name l where entry: "entry = (name, l)" by (cases entry)
  from Cons.prems have "ext \<notin> set (Extensions l)" and "declaring order ext = {}"
    by (auto simp: declaring_Cons entry split: if_splits)
  with Cons.IH show ?case by (simp add: entry extensionsLoop_apply)
qed

lemma extensionToLanguageLoop_declared:
  "extensionToLanguageLoop order m ext = Some name \<Longrightarrow>
   m ext = Some name \<or> name \<in> declaring order ext"
proof (induction order arbitrary: m)
  case Nil
  then show ?case by simp
next
  case (Cons entry order)
  obtain n l where entry: "entry = (n, l)" by (cases entry)
  from Cons.prems
  have "extensionToLanguageLoop order (extensionsLoop n (Extensions l) m) ext = Some name"
    by (simp add: entry)
  from Cons.IH [OF this] show ?case
    by (auto simp: extensionsLoop_apply declaring_Cons entry split: if_splits)
qed

lemma extensionToLanguageLoop_unique:
  "declaring order ext = {name} \<Longrightarrow> extensionToLanguageLoop order m ext = Some name"
proof (induction order arbitrary: m)
  case Nil
  then show ?case by (simp add: declaring_def)
next
  case (Cons entry order)
  obtain n l where entry: "entry = (n, l)" by (cases entry)
  let ?m = "extensionsLoop n (Extensions l) m"
  show ?case
  proof (cases "declaring order ext = {}")
    case True
    with Cons.prems have "ext \<in> set (Extensions l)" and "n = name"
      by (auto simp: declaring_Cons entry split: if_splits)
    with extensionToLanguageLoop_undeclared [OF True, of ?m] show ?thesis
      by (simp add: entry extensionsLoop_apply)
  next
    case False
    moreover from Cons.prems have "declaring order ext \<subseteq> {name}"
      by (auto simp: declaring_Cons entry)
    ultimately have "declaring order ext = {name}" by blast
    from Cons.IH [OF this] show ?thesis by (simp add: entry)
  qed
qed

lemma declaring_cong: "set order = set database \<Longrightarrow> declaring order ext = declaring database ext"
  by (simp add: declaring_def)

lemma languageFeaturesLoop_dom:
  "languageFeaturesLoop c order m = Inr m' \<Longrightarrow> dom m' = dom m \<union> fst ` set order"
proof (induction order arbitrary: m)
  case Nil
  then show ?case by simp
next
  case (Cons entry order)
  obtain name l where entry: "entry = (name, l)" by (cases entry)
  from Cons.prems obtain f where "languageFeature c l = Inr f"
    and "languageFeaturesLoop c order (m(name \<mapsto> f)) = Inr m'"
    by (auto simp: entry split: sum.splits)
  from Cons.IH [OF this(2)] show ?case by (auto simp: entry)
qed

lemma languageFeaturesLoop_other:
  "languageFeaturesLoop c order m = Inr m' \<Longrightarrow> name \<notin> fst ` set order \<Longrightarrow> m' name = m name"
proof (induction order arbitrary: m)
  case Nil
  then show ?case by simp
next
  case (Cons entry order)
  obtain n l where entry: "entry = (n, l)" by (cases entry)
  from Cons.prems(1) obtain f where "languageFeature c l = Inr f"
    and run: "languageFeaturesLoop c order (m(n \<mapsto> f)) = Inr m'"
    by (auto simp: entry split: sum.splits)
  from Cons.IH [OF run] Cons.prems(2) show ?case by (auto simp: entry)
qed

lemma languageFeaturesLoop_entry:
  "languageFeaturesLoop c order m = Inr m' \<Longrightarrow> distinct (map fst order) \<Longrightarrow>
   (name, value) \<in> set order \<Longrightarrow>
   \<exists>f. m' name = Some f \<and> languageFeature c value = Inr f"
proof (induction order arbitrary: m)
  case Nil
  then show ?case by simp
next
  case (Cons entry order)
  obtain n l where entry: "entry = (n, l)" by (cases entry)
  from Cons.prems(1) obtain f where f: "languageFeature c l = Inr f"
    and run: "languageFeaturesLoop c order (m(n \<mapsto> f)) = Inr m'"
    by (auto simp: entry split: sum.splits)
  from Cons.prems(2) have fresh: "n \<notin> fst ` set order" and dist: "distinct (map fst order)"
    by (simp_all add: entry)
  show ?case
  proof (cases "(name, value) = (n, l)")
    case True
    with languageFeaturesLoop_other [OF run fresh] f show ?thesis by simp
  next
    case False
    with Cons.prems(3) have "(name, value) \<in> set order" by (auto simp: entry)
    from Cons.IH [OF run dist this] show ?thesis .
  qed
qed

lemma languageFeaturesLoop_returns:
  "(\<forall>entry\<in>set order. tokensNonEmpty (snd entry)) \<Longrightarrow> \<exists>m'. languageFeaturesLoop c order m = Inr m'"
proof (induction order arbitrary: m)
  case Nil
  then show ?case by simp
next
  case (Cons entry order)
  obtain n l where entry: "entry = (n, l)" by (cases entry)
  from Cons.prems have "tokensNonEmpty l" by (simp add: entry)
  from languageFeature_returns [OF this] obtain f where "languageFeature c l = Inr f" ..
  with Cons show ?case by (simp add: entry)
qed

lemma languageFeaturesLoop_tokensNonEmpty:
  "languageFeaturesLoop c order m = Inr m' \<Longrightarrow> entry \<in> set order \<Longrightarrow> tokensNonEmpty (snd entry)"
proof (induction order arbitrary: m)
  case Nil
  then show ?case by simp
next
  case (Cons e order)
  obtain n l where e: "e = (n, l)" by (cases e)
  from Cons.prems(1) obtain f where f: "languageFeature c l = Inr f"
    and run: "languageFeaturesLoop c order (m(n \<mapsto> f)) = Inr m'"
    by (auto simp: e split: sum.splits)
  from Cons.prems(2) Cons.IH [OF run] languageFeature_tokensNonEmpty [OF f] show ?case
    by (auto simp: e)
qed

section \<open>Properties of \<open>loadDatabase\<close>, \<open>ProcessConstants\<close> and \<open>processFlags\<close>\<close>

lemma loadDatabase_Inr:
  "loadDatabase e g = (out0, Inr database) \<longleftrightarrow>
     (\<exists>data. DecodeString e (languages e) = Inr data \<and> Unmarshal e data = Inr database) \<and>
     out0 = (if Trace g then [PrintTrace (Sprintf ''milliseconds unmarshal: %d'' [ArgElapsed])] else [])"
  by (auto simp: loadDatabase_def split: sum.splits)

lemma loadDatabase_isPrint: "loadDatabase e g = (out0, r) \<Longrightarrow> x \<in> set out0 \<Longrightarrow> isPrint x"
  by (auto simp: loadDatabase_def isPrint_def split: sum.splits if_splits)

lemma ProcessConstantsE:
  assumes "ProcessConstants e g = (out, Inr g')"
  obtains out0 database features where
    "loadDatabase e g = (out0, Inr database)"
    "languageFeaturesLoop (Complexity g) (range2 e database) (LanguageFeatures g) = Inr features"
    "g' = g\<lparr>ExtensionToLanguage :=
              extensionToLanguageLoop (range1 e database) (ExtensionToLanguage g),
            LanguageFeatures := features\<rparr>"
    "\<forall>x\<in>set out. isPrint x"
proof -
  from assms obtain out0 database where load: "loadDatabase e g = (out0, Inr database)"
    by (auto simp: ProcessConstants_def split: prod.splits sum.splits)
  from assms load obtain features where
    loop: "languageFeaturesLoop (Complexity g) (range2 e database) (LanguageFeatures g) = Inr features"
    by (auto simp: ProcessConstants_def Let_def split: sum.splits)
  from assms load loop have
    "g' = g\<lparr>ExtensionToLanguage :=
              extensionToLanguageLoop (range1 e database) (ExtensionToLanguage g),
            LanguageFeatures := features\<rparr>"
    by (simp add: ProcessConstants_def Let_def)
  moreover from assms load loop loadDatabase_isPrint [OF load] have "\<forall>x\<in>set out. isPrint x"
    by (auto simp: ProcessConstants_def Let_def isPrint_def split: if_splits)
  ultimately show thesis using load loop that by blast
qed

lemma ProcessConstants_returns:
  assumes "loadDatabase e g = (out0, Inr database)"
    and "\<forall>entry\<in>set (range2 e database). tokensNonEmpty (snd entry)"
  shows "\<exists>out g'. ProcessConstants e g = (out, Inr g')"
proof -
  from languageFeaturesLoop_returns [OF assms(2)] obtain features where
    "languageFeaturesLoop (Complexity g) (range2 e database) (LanguageFeatures g) = Inr features"
    by blast
  with assms(1) show ?thesis by (simp add: ProcessConstants_def Let_def)
qed

lemma ProcessConstants_entry:
  assumes "ProcessConstants e g = (out, Inr g')"
    and "loadDatabase e g = (out0, Inr database)"
    and "visits (range2 e database) database"
    and "(name, value) \<in> set database"
  shows "\<exists>f. LanguageFeatures g' name = Some f \<and> languageFeature (Complexity g) value = Inr f"
proof -
  from assms(1) obtain out1 db features where
    "loadDatabase e g = (out1, Inr db)"
    "languageFeaturesLoop (Complexity g) (range2 e db) (LanguageFeatures g) = Inr features"
    "g' = g\<lparr>ExtensionToLanguage := extensionToLanguageLoop (range1 e db) (ExtensionToLanguage g),
            LanguageFeatures := features\<rparr>"
    by (rule ProcessConstantsE)
  with assms(2) have
    loop: "languageFeaturesLoop (Complexity g) (range2 e database) (LanguageFeatures g) = Inr features"
    and g': "LanguageFeatures g' = features"
    by simp_all
  from assms(3,4) have "distinct (map fst (range2 e database))"
    and "(name, value) \<in> set (range2 e database)"
    by (simp_all add: visits_def)
  from languageFeaturesLoop_entry [OF loop this] show ?thesis by (simp add: g')
qed

lemma processFlags_state: "snd (processFlags g) = g\<lparr>Complexity := Complexity g \<and> \<not> More g\<rparr>"
  by (cases "More g \<and> Complexity g") (auto simp: processFlags_def Let_def)

lemma processFlags_isPrint: "x \<in> set (fst (processFlags g)) \<Longrightarrow> isPrint x"
  by (auto simp: processFlags_def Let_def isPrint_def split: if_splits)

section \<open>Properties of \<open>Process\<close>\<close>

lemma Process_run:
  assumes "\<not> Languages g" and "ProcessConstants e g = (out0, Inr g1)"
    and "allocates e (FileListQueueSize g)" and "allocates e (FileReadContentJobQueueSize g)"
    and "allocates e (FileSummaryJobQueueSize g)"
  shows "\<exists>prints. (\<forall>x\<in>set prints. isPrint x) \<and>
    Process e g =
      (prints @
       [MakeChan fileListQueue (FileListQueueSize g),
        MakeChan fileReadContentJobQueue (FileReadContentJobQueueSize g),
        MakeChan fileSummaryJobQueue (FileSummaryJobQueueSize g),
        GoWalkDirectoryParallel (case DirFilePaths g of [] \<Rightarrow> ''.'' | root # _ \<Rightarrow> root) fileListQueue,
        GoFileReaderWorker fileListQueue fileReadContentJobQueue,
        GoFileProcessorWorker fileReadContentJobQueue fileSummaryJobQueue,
        FileSummarize fileSummaryJobQueue] @
       (if FileOutput g = '''' then [Println (Text (fileSummarize e fileSummaryJobQueue))]
        else [WriteFile (FileOutput g) (fileSummarize e fileSummaryJobQueue) 384,
              Println (Text (''results written to '' @ FileOutput g))]),
       Inr (g1\<lparr>Complexity := Complexity g \<and> \<not> More g,
               DirFilePaths := (if DirFilePaths g = [] then [''.''] else DirFilePaths g),
               SortBy := ToLower e (SortBy g)\<rparr>))"
proof -
  from assms(2) obtain m f where g1: "g1 = g\<lparr>ExtensionToLanguage := m, LanguageFeatures := f\<rparr>"
    and out0: "\<forall>x\<in>set out0. isPrint x"
    by (elim ProcessConstantsE) blast
  obtain out1 g2 where pf: "processFlags g1 = (out1, g2)" by (cases "processFlags g1")
  from processFlags_state [of g1] pf
  have g2: "g2 = g1\<lparr>Complexity := Complexity g \<and> \<not> More g\<rparr>"
    by (simp add: g1)
  from processFlags_isPrint [of _ g1] pf have out1: "\<forall>x\<in>set out1. isPrint x" by simp
  have same: "DirFilePaths g1 = DirFilePaths g" "SortBy g1 = SortBy g" "Debug g1 = Debug g"
    "FileOutput g1 = FileOutput g" "PathBlacklist g1 = PathBlacklist g"
    "FileListQueueSize g1 = FileListQueueSize g"
    "FileReadContentJobQueueSize g1 = FileReadContentJobQueueSize g"
    "FileSummaryJobQueueSize g1 = FileSummaryJobQueueSize g"
    by (simp_all add: g1)
  define g4 where "g4 = g1\<lparr>Complexity := Complexity g \<and> \<not> More g,
               DirFilePaths := (if DirFilePaths g = [] then [''.''] else DirFilePaths g),
               SortBy := ToLower e (SortBy g)\<rparr>"
  define debug where "debug = (if Debug g
                then [PrintDebug (Sprintf ''NumCPU: %d'' [ArgInt (NumCPU e)]),
                      PrintDebug (Sprintf ''SortBy: %s'' [ArgStr (SortBy g4)]),
                      PrintDebug (Sprintf ''PathBlacklist: %v'' [ArgStrs (PathBlacklist g4)])]
                else [])"
  have debug: "\<forall>x\<in>set debug. isPrint x" by (auto simp: debug_def isPrint_def)
  have "Process e g =
      ((out0 @ out1 @ debug) @
       [MakeChan fileListQueue (FileListQueueSize g),
        MakeChan fileReadContentJobQueue (FileReadContentJobQueueSize g),
        MakeChan fileSummaryJobQueue (FileSummaryJobQueueSize g),
        GoWalkDirectoryParallel (case DirFilePaths g of [] \<Rightarrow> ''.'' | root # _ \<Rightarrow> root) fileListQueue,
        GoFileReaderWorker fileListQueue fileReadContentJobQueue,
        GoFileProcessorWorker fileReadContentJobQueue fileSummaryJobQueue,
        FileSummarize fileSummaryJobQueue] @
       (if FileOutput g = '''' then [Println (Text (fileSummarize e fileSummaryJobQueue))]
        else [WriteFile (FileOutput g) (fileSummarize e fileSummaryJobQueue) 384,
              Println (Text (''results written to '' @ FileOutput g))]),
       Inr g4)"
    using assms(1,3,4,5)
    by (cases "DirFilePaths g")
       (simp_all add: Process_def assms(2) pf g2 same g4_def debug_def makeChan_def allocates_def Let_def)
  moreover from out0 out1 debug have "\<forall>x\<in>set (out0 @ out1 @ debug). isPrint x" by auto
  ultimately show ?thesis unfolding g4_def by blast
qed

lemma isPrint_filter [simp]:
  assumes "\<forall>x\<in>set prints. isPrint x"
  shows "filter isMakeChan prints = []" and "filter isStage prints = []"
    and "filter isWalk prints = []"
  using assms
  by (auto simp: filter_empty_conv isPrint_def isMakeChan_def isStage_def isWalk_def
        split: effect.splits)

lemma ProcessConstants_frame:
  assumes "ProcessConstants e g = (out, Inr g1)"
  shows "\<exists>m f. g1 = g\<lparr>ExtensionToLanguage := m, LanguageFeatures := f\<rparr>"
  using assms by (elim ProcessConstantsE) blast

lemma Process_InrE:
  assumes "\<not> Languages g" and "Process e g = (out, Inr g')"
  obtains out0 g1 where "ProcessConstants e g = (out0, Inr g1)"
    and "allocates e (FileListQueueSize g)" and "allocates e (FileReadContentJobQueueSize g)"
    and "allocates e (FileSummaryJobQueueSize g)"
proof -
  obtain out0 r where pc: "ProcessConstants e g = (out0, r)" by (cases "ProcessConstants e g")
  from assms pc obtain g1 where r: "r = Inr g1"
    by (cases r) (simp_all add: Process_def)
  from pc r have "ProcessConstants e g = (out0, Inr g1)" by simp
  from ProcessConstants_frame [OF this]
  obtain m f where g1: "g1 = g\<lparr>ExtensionToLanguage := m, LanguageFeatures := f\<rparr>"
    by blast
  obtain out1 g2 where pf: "processFlags g1 = (out1, g2)" by (cases "processFlags g1")
  from processFlags_state [of g1] pf
  have g2: "g2 = g1\<lparr>Complexity := Complexity g \<and> \<not> More g\<rparr>"
    by (simp add: g1)
  have same: "FileListQueueSize g1 = FileListQueueSize g"
    "FileReadContentJobQueueSize g1 = FileReadContentJobQueueSize g"
    "FileSummaryJobQueueSize g1 = FileSummaryJobQueueSize g"
    by (simp_all add: g1)
  from assms have "allocates e (FileListQueueSize g) \<and> allocates e (FileReadContentJobQueueSize g)
      \<and> allocates e (FileSummaryJobQueueSize g)"
    by (simp add: Process_def pc r pf g2 same makeChan_def allocates_def Let_def
          split: if_splits sum.splits option.splits)
  with pc r that show thesis by blast
qed

lemma Process_returns:
  assumes "\<not> Languages g" and "loadDatabase e g = (out0, Inr database)"
    and "\<forall>entry\<in>set (range2 e database). tokensNonEmpty (snd entry)"
    and "allocates e (FileListQueueSize g)" and "allocates e (FileReadContentJobQueueSize g)"
    and "allocates e (FileSummaryJobQueueSize g)"
  shows "\<exists>prints g1. (\<forall>x\<in>set prints. isPrint x) \<and>
    Process e g =
      (prints @
       [MakeChan fileListQueue (FileListQueueSize g),
        MakeChan fileReadContentJobQueue (FileReadContentJobQueueSize g),
        MakeChan fileSummaryJobQueue (FileSummaryJobQueueSize g),
        GoWalkDirectoryParallel (case DirFilePaths g of [] \<Rightarrow> ''.'' | root # _ \<Rightarrow> root) fileListQueue,
        GoFileReaderWorker fileListQueue fileReadContentJobQueue,
        GoFileProcessorWorker fileReadContentJobQueue fileSummaryJobQueue,
        FileSummarize fileSummaryJobQueue] @
       (if FileOutput g = '''' then [Println (Text (fileSummarize e fileSummaryJobQueue))]
        else [WriteFile (FileOutput g) (fileSummarize e fileSummaryJobQueue) 384,
              Println (Text (''results written to '' @ FileOutput g))]),
       Inr (g1\<lparr>Complexity := Complexity g \<and> \<not> More g,
               DirFilePaths := (if DirFilePaths g = [] then [''.''] else DirFilePaths g),
               SortBy := ToLower e (SortBy g)\<rparr>))"
proof -
  from ProcessConstants_returns [OF assms(2,3)] obtain out1 g1
    where "ProcessConstants e g = (out1, Inr g1)" by blast
  from Process_run [OF assms(1) this assms(4,5,6)] show ?thesis by blast
qed

lemma isWalk_simps [simp]:
  "isWalk (GoWalkDirectoryParallel root q)" "\<not> isWalk (PrintTrace m)" "\<not> isWalk (PrintDebug m)"
  "\<not> isWalk (Println m)" "\<not> isWalk (MakeChan c n)" "\<not> isWalk (GoFileReaderWorker q1 q2)"
  "\<not> isWalk (GoFileProcessorWorker q1 q2)" "\<not> isWalk (FileSummarize q)"
  "\<not> isWalk (WriteFile file r mode)"
  by (simp_all add: isWalk_def)

lemma isMakeChan_simps [simp]:
  "isMakeChan (MakeChan c n)" "\<not> isMakeChan (PrintTrace m)" "\<not> isMakeChan (PrintDebug m)"
  "\<not> isMakeChan (Println m)" "\<not> isMakeChan (GoWalkDirectoryParallel root q)"
  "\<not> isMakeChan (GoFileReaderWorker q1 q2)" "\<not> isMakeChan (GoFileProcessorWorker q1 q2)"
  "\<not> isMakeChan (FileSummarize q)" "\<not> isMakeChan (WriteFile file r mode)"
  by (simp_all add: isMakeChan_def)

lemma isStage_simps [simp]:
  "isStage (GoWalkDirectoryParallel root q)" "isStage (GoFileReaderWorker q1 q2)"
  "isStage (GoFileProcessorWorker q1 q2)" "isStage (FileSummarize q)"
  "\<not> isStage (PrintTrace m)" "\<not> isStage (PrintDebug m)" "\<not> isStage (Println m)"
  "\<not> isStage (MakeChan c n)" "\<not> isStage (WriteFile file r mode)"
  by (simp_all add: isStage_def)

lemma Process_observed:
  assumes "\<not> Languages g" and "loadDatabase e g = (out0, Inr database)"
    and "\<forall>entry\<in>set (range2 e database). tokensNonEmpty (snd entry)"
    and "allocates e (FileListQueueSize g)" and "allocates e (FileReadContentJobQueueSize g)"
    and "allocates e (FileSummaryJobQueueSize g)"
  shows "\<exists>out g'. Process e g = (out, Inr g') \<and>
    DirFilePaths g' = (if DirFilePaths g = [] then [''.''] else DirFilePaths g) \<and>
    filter isMakeChan out =
      [MakeChan fileListQueue (FileListQueueSize g),
       MakeChan fileReadContentJobQueue (FileReadContentJobQueueSize g),
       MakeChan fileSummaryJobQueue (FileSummaryJobQueueSize g)] \<and>
    filter isStage out =
      [GoWalkDirectoryParallel (case DirFilePaths g of [] \<Rightarrow> ''.'' | root # _ \<Rightarrow> root) fileListQueue,
       GoFileReaderWorker fileListQueue fileReadContentJobQueue,
       GoFileProcessorWorker fileReadContentJobQueue fileSummaryJobQueue,
       FileSummarize fileSummaryJobQueue] \<and>
    filter isWalk out =
      [GoWalkDirectoryParallel (case DirFilePaths g of [] \<Rightarrow> ''.'' | root # _ \<Rightarrow> root) fileListQueue]"
proof -
  from Process_returns [OF assms] obtain prints g1 where
    prints: "\<forall>x\<in>set prints. isPrint x" and
    run: "Process e g =
      (prints @
       [MakeChan fileListQueue (FileListQueueSize g),
        MakeChan fileReadContentJobQueue (FileReadContentJobQueueSize g),
        MakeChan fileSummaryJobQueue (FileSummaryJobQueueSize g),
        GoWalkDirectoryParallel (case DirFilePaths g of [] \<Rightarrow> ''.'' | root # _ \<Rightarrow> root) fileListQueue,
        GoFileReaderWorker fileListQueue fileReadContentJobQueue,
        GoFileProcessorWorker fileReadContentJobQueue fileSummaryJobQueue,
        FileSummarize fileSummaryJobQueue] @
       (if FileOutput g = '''' then [Println (Text (fileSummarize e fileSummaryJobQueue))]
        else [WriteFile (FileOutput g) (fileSummarize e fileSummaryJobQueue) 384,
              Println (Text (''results written to '' @ FileOutput g))]),
       Inr (g1\<lparr>Complexity := Complexity g \<and> \<not> More g,
               DirFilePaths := (if DirFilePaths g = [] then [''.''] else DirFilePaths g),
               SortBy := ToLower e (SortBy g)\<rparr>))"
    by blast
  show ?thesis
    unfolding run using prints by simp
qed

lemma Process_state:
  assumes "\<not> Languages g" and "Process e g = (out, Inr g')"
  shows "\<exists>out1 g1. ProcessConstants e g = (out1, Inr g1) \<and>
    g' = g1\<lparr>Complexity := Complexity g \<and> \<not> More g,
            DirFilePaths := (if DirFilePaths g = [] then [''.''] else DirFilePaths g),
            SortBy := ToLower e (SortBy g)\<rparr>"
proof -
  from assms obtain out1 g1 where pc: "ProcessConstants e g = (out1, Inr g1)"
    and sizes: "allocates e (FileListQueueSize g)" "allocates e (FileReadContentJobQueueSize g)"
      "allocates e (FileSummaryJobQueueSize g)"
    by (rule Process_InrE)
  from Process_run [OF assms(1) pc sizes] assms(2) show ?thesis
    using pc by auto
qed

lemma declaring_Nil: "declaring [] ext = {}"
  by (simp add: declaring_def)

lemma extensionToLanguageLoop_resolves:
  "declaring order ext \<noteq> {} \<Longrightarrow>
   \<exists>name\<in>declaring order ext. extensionToLanguageLoop order m ext = Some name"
proof (induction order arbitrary: m)
  case Nil
  then show ?case by (simp add: declaring_def)
next
  case (Cons entry order)
  obtain n l where entry: "entry = (n, l)" by (cases entry)
  let ?m = "extensionsLoop n (Extensions l) m"
  show ?case
  proof (cases "declaring order ext = {}")
    case True
    with Cons.prems have "ext \<in> set (Extensions l)"
      by (auto simp: declaring_Cons entry split: if_splits)
    with extensionToLanguageLoop_undeclared [OF True, of ?m] show ?thesis
      by (simp add: entry extensionsLoop_apply declaring_Cons)
  next
    case False
    from Cons.IH [OF this, of ?m] show ?thesis
      by (auto simp: entry declaring_Cons)
  qed
qed

lemma extensionToLanguageLoop_order:
  assumes "set order1 = set order2"
    and "\<forall>n1 n2. n1 \<in> declaring order1 ext \<longrightarrow> n2 \<in> declaring order1 ext \<longrightarrow> n1 = n2"
  shows "extensionToLanguageLoop order1 m ext = extensionToLanguageLoop order2 m ext"
proof (cases "declaring order1 ext = {}")
  case True
  moreover from True have "declaring order2 ext = {}"
    using declaring_cong [OF assms(1), of ext] by simp
  ultimately show ?thesis by (simp add: extensionToLanguageLoop_undeclared)
next
  case False
  then obtain name where "name \<in> declaring order1 ext" by blast
  with assms(2) have one: "declaring order1 ext = {name}" by blast
  then have "declaring order2 ext = {name}"
    using declaring_cong [OF assms(1), of ext] by simp
  with one show ?thesis by (simp add: extensionToLanguageLoop_unique)
qed

lemma covered_token:
  fixes m :: byte
  assumes "\<exists>c. firstByte v = Some c \<and> c AND m = c"
  shows "(\<exists>c. firstByte v = Some c \<and> c AND m = c) \<and>
         (\<forall>b. b AND m \<noteq> b \<longrightarrow> firstByte v \<noteq> Some b) \<and>
         (\<forall>b. b \<noteq> 0 \<and> b AND m = 0 \<longrightarrow> firstByte v \<noteq> Some b)"
  using assms by auto

lemma processFlags_debug:
  "Debug g \<Longrightarrow>
   PrintDebug (Sprintf ''Complexity Calculation: %t'' [ArgBool (\<not> Complexity (snd (processFlags g)))])
     \<in> set (fst (processFlags g))"
  by (simp add: processFlags_def Let_def)

section \<open>Closer automata, the last visit and the unused capacities\<close>

lemma closeAt_insertPath:
  assumes "\<And>n. Close (mark n) = cl"
  shows "closeAt (insertPath mark w t) w = cl"
proof (induction w arbitrary: t)
  case Nil
  then show ?case using assms by simp
next
  case (Cons c cs)
  obtain ty cl' tb where t: "t = Trie ty cl' tb" by (cases t)
  show ?case by (simp add: t Cons.IH)
qed

lemma closeAt_InsertClose:
  "closeAt (InsertClose ty w cl t) w = Some (Insert' (ty, Closer) cl emptyTrie)"
  unfolding InsertClose_def by (rule closeAt_insertPath) simp

lemma tagAt_Insert': "tagAt (Insert' tag w t) v = (if v = w then Some tag else tagAt t v)"
  unfolding Insert'_def by (rule tagAt_insertPath) simp_all

lemma extensionToLanguageLoop_last:
  "extensionToLanguageLoop order m ext =
     (case lastDeclaring order ext of None \<Rightarrow> m ext | Some name \<Rightarrow> Some name)"
proof (induction order arbitrary: m)
  case Nil
  then show ?case by simp
next
  case (Cons entry order)
  obtain n l where entry: "entry = (n, l)" by (cases entry)
  show ?case
    by (simp add: entry Cons.IH extensionsLoop_apply split: option.split)
qed

text \<open>
  \<open>lastDeclaring\<close> names a language that declares the extension, and names one exactly
  when some language of the visiting order declares it.
\<close>

lemma lastDeclaring_declaring:
  "lastDeclaring order ext = Some name \<Longrightarrow> name \<in> declaring order ext"
proof (induction order)
  case Nil
  then show ?case by simp
next
  case (Cons entry order)
  obtain n l where entry: "entry = (n, l)" by (cases entry)
  from Cons show ?case
    by (simp add: entry declaring_Cons split: option.splits if_splits)
qed

lemma lastDeclaring_None: "lastDeclaring order ext = None \<longleftrightarrow> declaring order ext = {}"
proof (induction order)
  case Nil
  then show ?case by (simp add: declaring_Nil)
next
  case (Cons entry order)
  obtain n l where entry: "entry = (n, l)" by (cases entry)
  from Cons show ?case
    by (cases "lastDeclaring order ext") (auto simp: entry declaring_Cons)
qed

lemma loadDatabase_knobs:
  "loadDatabase e (g\<lparr>FileReadJobQueueSize := a, FileProcessJobQueueSize := b\<rparr>) = loadDatabase e g"
  by (simp add: loadDatabase_def)

section \<open>Facts about the sample inputs\<close>

lemma sample_loads:
  "loadDatabase (sampleEnv database) (initial (sampleEnv database) \<lparr>DirFilePaths := paths\<rparr>)
     = ([], Inr database)"
  by (simp add: loadDatabase_def sampleEnv_def initial_def)

lemma sample_tokensNonEmpty: "tokensNonEmpty sampleLanguage"
  by (simp add: tokensNonEmpty_def sampleLanguage_def)

lemma sampleEnv_loads:
  "\<not> Trace g \<Longrightarrow> loadDatabase (sampleEnv database) g = ([], Inr database)"
  by (simp add: loadDatabase_def sampleEnv_def)

lemma sampleEnv_visits:
  "distinct (map fst database) \<Longrightarrow> visits (range1 (sampleEnv database) database) database"
  "distinct (map fst database) \<Longrightarrow> visits (range2 (sampleEnv database) database) database"
  by (simp_all add: visits_def sampleEnv_def)

lemma sampleEnv_runs:
  assumes "\<not> Trace g" and "tokensNonEmpty l"
  shows "\<exists>out g' f. ProcessConstants (sampleEnv [(name, l)]) g = (out, Inr g') \<and>
           LanguageFeatures g' name = Some f \<and> languageFeature (Complexity g) l = Inr f"
proof -
  let ?e = "sampleEnv [(name, l)]"
  have load: "loadDatabase ?e g = ([], Inr [(name, l)])"
    by (rule sampleEnv_loads) (rule assms)
  have "\<forall>entry\<in>set (range2 ?e [(name, l)]). tokensNonEmpty (snd entry)"
    by (simp add: sampleEnv_def assms)
  from ProcessConstants_returns [OF load this]
  obtain out g' where run: "ProcessConstants ?e g = (out, Inr g')" by blast
  have "visits (range2 ?e [(name, l)]) [(name, l)]"
    by (rule sampleEnv_visits) simp
  from ProcessConstants_entry [OF run load this, of name l] run show ?thesis by auto
qed

section \<open>The claims\<close>

subsection \<open>Complexity tokens in the combined automaton (C1)\<close>

text \<open>
  C1, as stated, fails: the code does the opposite. With the flag \<open>Complexity\<close> set, which
  is the state the debug output prints as \<open>Complexity Calculation: false\<close>, the complexity
  token \<open>if\<close> is in the dedicated complexity automaton and is not in the combined
  automaton \<open>Tokens\<close>; with the flag not set it is in both.
\<close>

theorem C1_counterexample:
  "(case snd (ProcessConstants (sampleEnv [(''Go'', sampleLanguage)])
                (initial (sampleEnv []) \<lparr>Complexity := True\<rparr>)) of
      Inl p \<Rightarrow> False
    | Inr g' \<Rightarrow>
        (case LanguageFeatures g' ''Go'' of
           None \<Rightarrow> False
         | Some f \<Rightarrow>
             tagAt (Complexity_trie f) ''if '' = Some (T_COMPLEXITY, Plain) \<and>
             tagAt (Tokens f) ''if '' = None))
   \<and> (case snd (ProcessConstants (sampleEnv [(''Go'', sampleLanguage)])
                (initial (sampleEnv []))) of
      Inl p \<Rightarrow> False
    | Inr g' \<Rightarrow>
        (case LanguageFeatures g' ''Go'' of
           None \<Rightarrow> False
         | Some f \<Rightarrow>
             tagAt (Complexity_trie f) ''if '' = Some (T_COMPLEXITY, Plain) \<and>
             tagAt (Tokens f) ''if '' = Some (T_COMPLEXITY, Plain)))
   \<and> PrintDebug (Sprintf ''Complexity Calculation: %t'' [ArgBool False])
       \<in> set (fst (processFlags (initial (sampleEnv []) \<lparr>Complexity := True, Debug := True\<rparr>)))"
proof (intro conjI)
  let ?e = "sampleEnv [(''Go'', sampleLanguage)]"
  let ?on = "initial (sampleEnv []) \<lparr>Complexity := True\<rparr>"
  let ?off = "initial (sampleEnv [])"
  have "\<not> Trace ?on" by (simp add: initial_def)
  from sampleEnv_runs [OF this sample_tokensNonEmpty, of "''Go''"]
  obtain out g' f where run: "ProcessConstants ?e ?on = (out, Inr g')"
    "LanguageFeatures g' ''Go'' = Some f" and f: "languageFeature True sampleLanguage = Inr f"
    by (auto simp: initial_def)
  have "tagAt (Complexity_trie f) ''if '' = Some (T_COMPLEXITY, Plain)"
    "tagAt (Tokens f) ''if '' = None"
    by (simp_all add: languageFeature_Tokens [OF f] languageFeature_Complexity_trie [OF f]
          sampleLanguage_def del: tagAt.simps)
  with run show "case snd (ProcessConstants ?e ?on) of
      Inl p \<Rightarrow> False
    | Inr g' \<Rightarrow>
        (case LanguageFeatures g' ''Go'' of
           None \<Rightarrow> False
         | Some f \<Rightarrow>
             tagAt (Complexity_trie f) ''if '' = Some (T_COMPLEXITY, Plain) \<and>
             tagAt (Tokens f) ''if '' = None)"
    by (simp del: tagAt.simps)
  have "\<not> Trace ?off" by (simp add: initial_def)
  from sampleEnv_runs [OF this sample_tokensNonEmpty, of "''Go''"]
  obtain out g' f where run: "ProcessConstants ?e ?off = (out, Inr g')"
    "LanguageFeatures g' ''Go'' = Some f" and f: "languageFeature False sampleLanguage = Inr f"
    by (auto simp: initial_def)
  have "tagAt (Complexity_trie f) ''if '' = Some (T_COMPLEXITY, Plain)"
    "tagAt (Tokens f) ''if '' = Some (T_COMPLEXITY, Plain)"
    by (simp_all add: languageFeature_Tokens [OF f] languageFeature_Complexity_trie [OF f]
          sampleLanguage_def del: tagAt.simps)
  with run show "case snd (ProcessConstants ?e ?off) of
      Inl p \<Rightarrow> False
    | Inr g' \<Rightarrow>
        (case LanguageFeatures g' ''Go'' of
           None \<Rightarrow> False
         | Some f \<Rightarrow>
             tagAt (Complexity_trie f) ''if '' = Some (T_COMPLEXITY, Plain) \<and>
             tagAt (Tokens f) ''if '' = Some (T_COMPLEXITY, Plain))"
    by (simp del: tagAt.simps)
  show "PrintDebug (Sprintf ''Complexity Calculation: %t'' [ArgBool False])
       \<in> set (fst (processFlags (initial (sampleEnv []) \<lparr>Complexity := True, Debug := True\<rparr>)))"
    by (simp add: processFlags_def Let_def initial_def)
qed

text \<open>
  C1, amended. For every language of the table, after \<open>ProcessConstants\<close> has completed,
  every complexity token is in the dedicated complexity automaton. When the flag
  \<open>Complexity\<close> is not set (complexity accounting enabled), every complexity token is
  also in the combined automaton \<open>Tokens\<close>, tagged as a complexity token unless it is
  also a single-line comment marker or the open token of a multi-line comment or of a
  quote; when the flag is set (accounting disabled) no byte string is tagged as a
  complexity token in \<open>Tokens\<close>. The flag denotes the disabled side: the debug output of
  \<open>processFlags\<close> prints the calculation state as its negation.
\<close>

theorem C1_complexity_tokens:
  assumes "ProcessConstants e g = (out, Inr g')"
    and "loadDatabase e g = (out0, Inr database)"
    and "visits (range2 e database) database"
    and "(name, value) \<in> set database"
  shows "(\<exists>f. LanguageFeatures g' name = Some f \<and>
      (\<forall>v\<in>set (ComplexityChecks value).
         tagAt (Complexity_trie f) v = Some (T_COMPLEXITY, Plain)) \<and>
      (\<not> Complexity g \<longrightarrow>
         (\<forall>v\<in>set (ComplexityChecks value).
            tagAt (Tokens f) v \<noteq> None \<and>
            (v \<notin> set (LineComment value) \<and> v \<notin> fst ` set (MultiLine value) \<and>
             v \<notin> fst ` set (Quotes value) \<longrightarrow>
               tagAt (Tokens f) v = Some (T_COMPLEXITY, Plain)))) \<and>
      (Complexity g \<longrightarrow> (\<forall>w r. tagAt (Tokens f) w \<noteq> Some (T_COMPLEXITY, r)))) \<and>
    (Debug g \<longrightarrow>
       PrintDebug (Sprintf ''Complexity Calculation: %t'' [ArgBool (\<not> Complexity (snd (processFlags g)))])
         \<in> set (fst (processFlags g)))"
proof -
  from ProcessConstants_entry [OF assms] obtain f where
    g': "LanguageFeatures g' name = Some f" and f: "languageFeature (Complexity g) value = Inr f"
    by blast
  note tokens = languageFeature_Tokens [OF f]
  have 1: "\<forall>v\<in>set (ComplexityChecks value). tagAt (Complexity_trie f) v = Some (T_COMPLEXITY, Plain)"
    by (simp add: languageFeature_Complexity_trie [OF f] del: tagAt.simps)
  have 2: "\<not> Complexity g \<longrightarrow>
         (\<forall>v\<in>set (ComplexityChecks value).
            tagAt (Tokens f) v \<noteq> None \<and>
            (v \<notin> set (LineComment value) \<and> v \<notin> fst ` set (MultiLine value) \<and>
             v \<notin> fst ` set (Quotes value) \<longrightarrow>
               tagAt (Tokens f) v = Some (T_COMPLEXITY, Plain)))"
    by (simp add: tokens del: tagAt.simps)
  have 3: "Complexity g \<longrightarrow> (\<forall>w r. tagAt (Tokens f) w \<noteq> Some (T_COMPLEXITY, r))"
    by (simp add: tokens del: tagAt.simps)
  have 4: "Debug g \<longrightarrow>
       PrintDebug (Sprintf ''Complexity Calculation: %t'' [ArgBool (\<not> Complexity (snd (processFlags g)))])
         \<in> set (fst (processFlags g))"
    by (simp add: processFlags_debug)
  from g' 1 2 3 4 show ?thesis by (intro conjI exI [of _ f])
qed

theorem C1_complexity_tokens_witness:
  "visits (range2 (sampleEnv [(''Go'', sampleLanguage)]) [(''Go'', sampleLanguage)])
     [(''Go'', sampleLanguage)]
   \<and> (\<exists>out g' f.
      ProcessConstants (sampleEnv [(''Go'', sampleLanguage)]) (initial (sampleEnv [])) = (out, Inr g')
      \<and> LanguageFeatures g' ''Go'' = Some f
      \<and> tagAt (Complexity_trie f) ''for '' = Some (T_COMPLEXITY, Plain)
      \<and> tagAt (Tokens f) ''for '' = Some (T_COMPLEXITY, Plain))"
proof -
  let ?l = "sampleLanguage"
  let ?e = "sampleEnv [(''Go'', ?l)]"
  let ?g = "initial (sampleEnv [])"
  have trace: "\<not> Trace ?g" and flag: "\<not> Complexity ?g" by (simp_all add: initial_def)
  from sampleEnv_runs [OF trace sample_tokensNonEmpty, of "''Go''"]
  obtain out g' where run: "ProcessConstants ?e ?g = (out, Inr g')"
    by blast
  have load: "loadDatabase ?e ?g = ([], Inr [(''Go'', ?l)])"
    by (rule sampleEnv_loads) (rule trace)
  have visit: "visits (range2 ?e [(''Go'', ?l)]) [(''Go'', ?l)]"
    by (rule sampleEnv_visits) simp
  have mem: "(''Go'', ?l) \<in> set [(''Go'', ?l)]" by simp
  from C1_complexity_tokens [OF run load visit mem, THEN conjunct1]
  obtain f where g': "LanguageFeatures g' ''Go'' = Some f"
    and c: "\<forall>v\<in>set (ComplexityChecks ?l). tagAt (Complexity_trie f) v = Some (T_COMPLEXITY, Plain)"
    and t: "\<not> Complexity ?g \<longrightarrow>
         (\<forall>v\<in>set (ComplexityChecks ?l).
            tagAt (Tokens f) v \<noteq> None \<and>
            (v \<notin> set (LineComment ?l) \<and> v \<notin> fst ` set (MultiLine ?l) \<and>
             v \<notin> fst ` set (Quotes ?l) \<longrightarrow>
               tagAt (Tokens f) v = Some (T_COMPLEXITY, Plain)))"
    by (elim exE conjE) (rule that; assumption)
  have tok: "''for '' \<in> set (ComplexityChecks ?l)"
    and other: "''for '' \<notin> set (LineComment ?l) \<and> ''for '' \<notin> fst ` set (MultiLine ?l) \<and>
      ''for '' \<notin> fst ` set (Quotes ?l)"
    by (simp_all add: sampleLanguage_def)
  from c [THEN bspec, OF tok] have "tagAt (Complexity_trie f) ''for '' = Some (T_COMPLEXITY, Plain)" .
  moreover from t [rule_format, OF flag tok, THEN conjunct2, rule_format, OF other]
  have "tagAt (Tokens f) ''for '' = Some (T_COMPLEXITY, Plain)" .
  ultimately show ?thesis using run g' visit by blast
qed

subsection \<open>The global dispatch mask (C2)\<close>

text \<open>
  C2, as stated, fails. With the flag \<open>Complexity\<close> set, the complexity mask is not
  ORed into \<open>ProcessMask\<close>: for a language with the complexity token \<open>while\<close>, the line
  comment \<open>//\<close>, the multi-line comment \<open>/* */\<close> and the quote \<open>`\<close>, \<open>ProcessMask\<close> is
  \<open>0x6F\<close>, and the OR of the four category masks is \<open>0x7F\<close>.
\<close>

theorem C2_counterexample:
  "case snd (ProcessConstants
               (sampleEnv [(''Go'', sampleLanguage \<lparr>ComplexityChecks := [''while '']\<rparr>)])
               (initial (sampleEnv []) \<lparr>Complexity := True\<rparr>)) of
     Inl p \<Rightarrow> False
   | Inr g' \<Rightarrow>
       (case LanguageFeatures g' ''Go'' of
          None \<Rightarrow> False
        | Some f \<Rightarrow>
            ProcessMask f = 0x6F \<and>
            ComplexityCheckMask f OR SingleLineCommentMask f OR MultiLineCommentMask f
              OR StringCheckMask f = 0x7F)"
proof -
  let ?l = "sampleLanguage \<lparr>ComplexityChecks := [''while '']\<rparr>"
  let ?g = "initial (sampleEnv []) \<lparr>Complexity := True\<rparr>"
  have "\<not> Trace ?g" and c: "Complexity ?g" by (simp_all add: initial_def)
  moreover have "tokensNonEmpty ?l" by (simp add: tokensNonEmpty_def sampleLanguage_def)
  ultimately obtain out g' f where
    run: "ProcessConstants (sampleEnv [(''Go'', ?l)]) ?g = (out, Inr g')"
    "LanguageFeatures g' ''Go'' = Some f" and f: "languageFeature True ?l = Inr f"
    using sampleEnv_runs [of ?g ?l "''Go''"] by auto
  from f have "ProcessMask f = 0x6F" "ComplexityCheckMask f = 0x77"
    "SingleLineCommentMask f = 0x2F" "MultiLineCommentMask f = 0x2F" "StringCheckMask f = 0x60"
    by (auto simp: languageFeature_def sampleLanguage_def)
  with run show ?thesis by simp
qed

text \<open>
  C2, amended. For every language of the table, after \<open>ProcessConstants\<close> has completed,
  \<open>ProcessMask\<close> is the bitwise OR of the single-line-comment, multi-line-comment and string
  masks, and of the complexity mask as well when the flag \<open>Complexity\<close> is not set; when
  the flag is set the complexity mask is left out.
\<close>

theorem C2_process_mask:
  assumes "ProcessConstants e g = (out, Inr g')"
    and "loadDatabase e g = (out0, Inr database)"
    and "visits (range2 e database) database"
    and "(name, value) \<in> set database"
  shows "\<exists>f. LanguageFeatures g' name = Some f \<and>
    ProcessMask f =
      (if Complexity g then 0 else ComplexityCheckMask f) OR SingleLineCommentMask f
        OR MultiLineCommentMask f OR StringCheckMask f"
proof -
  from ProcessConstants_entry [OF assms] obtain f where
    "LanguageFeatures g' name = Some f" "languageFeature (Complexity g) value = Inr f"
    by blast
  with languageFeature_ProcessMask [OF this(2)] show ?thesis by simp
qed

theorem C2_process_mask_witness:
  "visits (range2 (sampleEnv [(''Go'', sampleLanguage \<lparr>ComplexityChecks := [''while '']\<rparr>)])
             [(''Go'', sampleLanguage \<lparr>ComplexityChecks := [''while '']\<rparr>)])
     [(''Go'', sampleLanguage \<lparr>ComplexityChecks := [''while '']\<rparr>)]
   \<and> (\<exists>out g' f.
     ProcessConstants (sampleEnv [(''Go'', sampleLanguage \<lparr>ComplexityChecks := [''while '']\<rparr>)])
       (initial (sampleEnv [])) = (out, Inr g')
     \<and> LanguageFeatures g' ''Go'' = Some f
     \<and> ComplexityCheckMask f = 0x77
     \<and> ProcessMask f = 0x7F)"
proof -
  let ?l = "sampleLanguage \<lparr>ComplexityChecks := [''while '']\<rparr>"
  let ?e = "sampleEnv [(''Go'', ?l)]"
  let ?g = "initial (sampleEnv [])"
  have trace: "\<not> Trace ?g" and c: "\<not> Complexity ?g" by (simp_all add: initial_def)
  moreover have "tokensNonEmpty ?l" by (simp add: tokensNonEmpty_def sampleLanguage_def)
  ultimately obtain out g' f where
    run: "ProcessConstants ?e ?g = (out, Inr g')"
    and g': "LanguageFeatures g' ''Go'' = Some f" and f: "languageFeature False ?l = Inr f"
    using sampleEnv_runs [of ?g ?l "''Go''"] by auto
  have load: "loadDatabase ?e ?g = ([], Inr [(''Go'', ?l)])"
    by (rule sampleEnv_loads) (rule trace)
  have visit: "visits (range2 ?e [(''Go'', ?l)]) [(''Go'', ?l)]"
    by (rule sampleEnv_visits) simp
  from f have masks: "ComplexityCheckMask f = 0x77"
    "SingleLineCommentMask f = 0x2F" "MultiLineCommentMask f = 0x2F" "StringCheckMask f = 0x60"
    by (auto simp: languageFeature_def sampleLanguage_def)
  from C2_process_mask [OF run load visit, of "''Go''" ?l] g' c
  have "ProcessMask f = 0x7F" by (simp add: masks)
  with run g' masks visit show ?thesis by blast
qed

subsection \<open>The root paths walked (C3)\<close>

text \<open>
  C3, as stated, fails: with the two root paths \<open>a\<close> and \<open>b\<close> configured, the walker is
  started on \<open>a\<close> only, and \<open>b\<close> contributes no file.
\<close>

theorem C3_counterexample:
  "filter isWalk
     (fst (Process (sampleEnv [(''Go'', sampleLanguage)])
             (initial (sampleEnv [(''Go'', sampleLanguage)]) \<lparr>DirFilePaths := [''a'', ''b'']\<rparr>)))
     = [GoWalkDirectoryParallel ''a'' fileListQueue]
   \<and> GoWalkDirectoryParallel ''b'' fileListQueue
       \<notin> set (fst (Process (sampleEnv [(''Go'', sampleLanguage)])
             (initial (sampleEnv [(''Go'', sampleLanguage)]) \<lparr>DirFilePaths := [''a'', ''b'']\<rparr>)))"
proof -
  let ?e = "sampleEnv [(''Go'', sampleLanguage)]"
  let ?g = "initial ?e \<lparr>DirFilePaths := [''a'', ''b'']\<rparr>"
  have "\<not> Languages ?g" and "allocates ?e (FileListQueueSize ?g)"
    and "allocates ?e (FileReadContentJobQueueSize ?g)" and "allocates ?e (FileSummaryJobQueueSize ?g)"
    by (simp_all add: initial_def sampleEnv_def allocates_def)
  moreover have "\<forall>entry\<in>set (range2 ?e [(''Go'', sampleLanguage)]). tokensNonEmpty (snd entry)"
    by (simp add: sampleEnv_def sample_tokensNonEmpty)
  ultimately obtain out g' where "Process ?e ?g = (out, Inr g')"
    and walk: "filter isWalk out = [GoWalkDirectoryParallel ''a'' fileListQueue]"
    using Process_observed [OF _ sample_loads, of "[''a'', ''b'']" "[(''Go'', sampleLanguage)]"]
    by auto
  moreover have "GoWalkDirectoryParallel ''b'' fileListQueue \<notin> set out"
  proof
    assume "GoWalkDirectoryParallel ''b'' fileListQueue \<in> set out"
    then have "GoWalkDirectoryParallel ''b'' fileListQueue \<in> set (filter isWalk out)" by simp
    with walk show False by simp
  qed
  ultimately show ?thesis by simp
qed

text \<open>
  C3, amended. For a non-empty list \<open>DirFilePaths\<close>, when the flag \<open>Languages\<close> is not set,
  the table loads, no token of it is empty and \<open>make\<close> returns a channel for each of the
  three queue capacities, \<open>Process\<close> returns having started the walker exactly once, on
  the first element of the list; the list itself is left as it was.
\<close>

theorem C3_walker_on_first_path:
  assumes "\<not> Languages g" and "DirFilePaths g = root # rest"
    and "loadDatabase e g = (out0, Inr database)"
    and "\<forall>entry\<in>set (range2 e database). tokensNonEmpty (snd entry)"
    and "allocates e (FileListQueueSize g)" and "allocates e (FileReadContentJobQueueSize g)"
    and "allocates e (FileSummaryJobQueueSize g)"
  shows "\<exists>out g'. Process e g = (out, Inr g') \<and> DirFilePaths g' = root # rest \<and>
           filter isWalk out = [GoWalkDirectoryParallel root fileListQueue]"
  using Process_observed [OF assms(1,3,4,5,6,7)] assms(2) by auto

theorem C3_walker_on_first_path_witness:
  "\<not> Languages (initial (sampleEnv [(''Go'', sampleLanguage)]) \<lparr>DirFilePaths := [''src'', ''lib'']\<rparr>)
   \<and> DirFilePaths (initial (sampleEnv [(''Go'', sampleLanguage)]) \<lparr>DirFilePaths := [''src'', ''lib'']\<rparr>)
       = ''src'' # [''lib'']
   \<and> loadDatabase (sampleEnv [(''Go'', sampleLanguage)])
        (initial (sampleEnv [(''Go'', sampleLanguage)]) \<lparr>DirFilePaths := [''src'', ''lib'']\<rparr>)
       = ([], Inr [(''Go'', sampleLanguage)])
   \<and> tokensNonEmpty sampleLanguage
   \<and> filter isWalk (fst (Process (sampleEnv [(''Go'', sampleLanguage)])
        (initial (sampleEnv [(''Go'', sampleLanguage)]) \<lparr>DirFilePaths := [''src'', ''lib'']\<rparr>)))
       = [GoWalkDirectoryParallel ''src'' fileListQueue]"
  using C3_walker_on_first_path
    [of "initial (sampleEnv [(''Go'', sampleLanguage)]) \<lparr>DirFilePaths := [''src'', ''lib'']\<rparr>"
        "''src''" "[''lib'']" "sampleEnv [(''Go'', sampleLanguage)]" "[]" "[(''Go'', sampleLanguage)]"]
  by (auto simp: initial_def sampleEnv_def allocates_def loadDatabase_def tokensNonEmpty_def sampleLanguage_def)

subsection \<open>A malformed language table (C4)\<close>

text \<open>
  C4. When the embedded table is malformed, that is, when the base64 payload does not
  decode or the decoded JSON does not unmarshal, \<open>Process\<close> ends in the panic of
  \<open>loadDatabase\<close> and has had no effect before it: no queue is made, no walker or worker
  is started, \<open>fileSummarize\<close> is not called and no report is printed or written. This
  holds on both paths of \<open>Process\<close>, with the flag \<open>Languages\<close> set or not.
\<close>

theorem C4_malformed_table_aborts:
  assumes "DecodeString e (languages e) = Inl err
    \<or> (\<exists>data. DecodeString e (languages e) = Inr data \<and> Unmarshal e data = Inl err)"
  shows "\<exists>msg. Process e g = ([], Inl (Panic msg))"
  using assms
  by (auto simp: Process_def printLanguages_def ProcessConstants_def loadDatabase_def)

theorem C4_malformed_table_aborts_witness:
  "DecodeString (sampleEnv [] \<lparr>DecodeString := \<lambda>s. Inl ''illegal base64 data''\<rparr>)
     (languages (sampleEnv [] \<lparr>DecodeString := \<lambda>s. Inl ''illegal base64 data''\<rparr>))
     = Inl ''illegal base64 data''
   \<and> Process (sampleEnv [] \<lparr>DecodeString := \<lambda>s. Inl ''illegal base64 data''\<rparr>)
        (initial (sampleEnv []))
     = ([], Inl (Panic (Sprintf ''failed to base64 decode languages: %v''
                          [ArgErr ''illegal base64 data''])))
   \<and> DecodeString (sampleEnv [] \<lparr>Unmarshal := \<lambda>s. Inl ''unexpected end of JSON input''\<rparr>)
       (languages (sampleEnv [] \<lparr>Unmarshal := \<lambda>s. Inl ''unexpected end of JSON input''\<rparr>))
     = Inr ''{}''
   \<and> Unmarshal (sampleEnv [] \<lparr>Unmarshal := \<lambda>s. Inl ''unexpected end of JSON input''\<rparr>) ''{}''
     = Inl ''unexpected end of JSON input''
   \<and> Process (sampleEnv [] \<lparr>Unmarshal := \<lambda>s. Inl ''unexpected end of JSON input''\<rparr>)
        (initial (sampleEnv []) \<lparr>Languages := True\<rparr>)
     = ([], Inl (Panic (Sprintf ''languages json invalid: %v''
                          [ArgErr ''unexpected end of JSON input''])))"
  using
    C4_malformed_table_aborts
      [of "sampleEnv [] \<lparr>DecodeString := \<lambda>s. Inl ''illegal base64 data''\<rparr>"
          "''illegal base64 data''" "initial (sampleEnv [])"]
    C4_malformed_table_aborts
      [of "sampleEnv [] \<lparr>Unmarshal := \<lambda>s. Inl ''unexpected end of JSON input''\<rparr>"
          "''unexpected end of JSON input''" "initial (sampleEnv []) \<lparr>Languages := True\<rparr>"]
  by (simp add: sampleEnv_def Process_def printLanguages_def ProcessConstants_def
        loadDatabase_def initial_def)

subsection \<open>Masks and first bytes (C5)\<close>

text \<open>
  C5, as stated, fails in both parts. First part: the close token of a pair is a token of
  the category, \<open>InsertClose\<close> puts it under the tag of the category into the closer
  automaton, but only the first byte of the open token is ORed into the mask. For the
  multi-line comment \<open><!-- -->\<close> the mask is \<open>0x3C\<close>, and the first byte \<open>0x2D\<close> of
  the close token has a bit outside it (\<open>0x2D AND 0x3C = 0x2C\<close>). Second part: the zero
  byte has bitwise AND zero with every mask, and it is the first byte of a token that
  begins with NUL; here the single-line comment marker of the language is the one-byte
  token NUL.
\<close>

theorem C5_counterexample:
  "[CHR 0x00] \<in> set (LineComment (sampleLanguage \<lparr>LineComment := [[CHR 0x00]]\<rparr>))
   \<and> firstByte [CHR 0x00] = Some 0
   \<and> (case snd (ProcessConstants
                  (sampleEnv [(''Go'', sampleLanguage \<lparr>LineComment := [[CHR 0x00]]\<rparr>)])
                  (initial (sampleEnv []))) of
        Inl p \<Rightarrow> False
      | Inr g' \<Rightarrow>
          (case LanguageFeatures g' ''Go'' of
             None \<Rightarrow> False
           | Some f \<Rightarrow> 0 AND SingleLineCommentMask f = 0))
   \<and> (''<!--'', ''-->'') \<in> set (MultiLine (sampleLanguage \<lparr>MultiLine := [(''<!--'', ''-->'')]\<rparr>))
   \<and> firstByte ''-->'' = Some 0x2D
   \<and> (case snd (ProcessConstants
                  (sampleEnv [(''HTML'', sampleLanguage \<lparr>MultiLine := [(''<!--'', ''-->'')]\<rparr>)])
                  (initial (sampleEnv []))) of
        Inl p \<Rightarrow> False
      | Inr g' \<Rightarrow>
          (case LanguageFeatures g' ''HTML'' of
             None \<Rightarrow> False
           | Some f \<Rightarrow>
               MultiLineCommentMask f = 0x3C \<and>
               0x2D AND MultiLineCommentMask f = 0x2C \<and>
               (case closeAt (MultiLineComments f) ''<!--'' of
                  None \<Rightarrow> False
                | Some closer \<Rightarrow> tagAt closer ''-->'' = Some (T_MLCOMMENT, Closer))))"
proof -
  let ?l = "sampleLanguage \<lparr>LineComment := [[CHR 0x00]]\<rparr>"
  let ?h = "sampleLanguage \<lparr>MultiLine := [(''<!--'', ''-->'')]\<rparr>"
  let ?g = "initial (sampleEnv [])"
  have trace: "\<not> Trace ?g" and flag: "\<not> Complexity ?g" by (simp_all add: initial_def)
  have "tokensNonEmpty ?l" by (simp add: tokensNonEmpty_def sampleLanguage_def)
  with trace obtain out g' f where
    "ProcessConstants (sampleEnv [(''Go'', ?l)]) ?g = (out, Inr g')"
    "LanguageFeatures g' ''Go'' = Some f"
    using sampleEnv_runs [of ?g ?l "''Go''"] by auto
  then have nul: "case snd (ProcessConstants (sampleEnv [(''Go'', ?l)]) ?g) of
        Inl p \<Rightarrow> False
      | Inr g' \<Rightarrow>
          (case LanguageFeatures g' ''Go'' of
             None \<Rightarrow> False
           | Some f \<Rightarrow> 0 AND SingleLineCommentMask f = 0)"
    by simp
  have "tokensNonEmpty ?h" by (simp add: tokensNonEmpty_def sampleLanguage_def)
  with trace flag obtain out g' f where
    run: "ProcessConstants (sampleEnv [(''HTML'', ?h)]) ?g = (out, Inr g')"
    "LanguageFeatures g' ''HTML'' = Some f" and f: "languageFeature False ?h = Inr f"
    using sampleEnv_runs [of ?g ?h "''HTML''"] by auto
  from f have m: "MultiLineCommentMask f = 0x3C"
    and t: "MultiLineComments f = InsertClose T_MLCOMMENT ''<!--'' ''-->'' emptyTrie"
    by (auto simp: languageFeature_def sampleLanguage_def)
  have "closeAt (MultiLineComments f) ''<!--'' = Some (Insert' (T_MLCOMMENT, Closer) ''-->'' emptyTrie)"
    unfolding t by (rule closeAt_InsertClose)
  moreover have "tagAt (Insert' (T_MLCOMMENT, Closer) ''-->'' emptyTrie) ''-->''
      = Some (T_MLCOMMENT, Closer)"
    by (simp add: tagAt_Insert' del: tagAt.simps)
  moreover have "(0x2D :: byte) AND 0x3C = 0x2C" by simp
  ultimately have closer: "case snd (ProcessConstants (sampleEnv [(''HTML'', ?h)]) ?g) of
        Inl p \<Rightarrow> False
      | Inr g' \<Rightarrow>
          (case LanguageFeatures g' ''HTML'' of
             None \<Rightarrow> False
           | Some f \<Rightarrow>
               MultiLineCommentMask f = 0x3C \<and>
               0x2D AND MultiLineCommentMask f = 0x2C \<and>
               (case closeAt (MultiLineComments f) ''<!--'' of
                  None \<Rightarrow> False
                | Some closer \<Rightarrow> tagAt closer ''-->'' = Some (T_MLCOMMENT, Closer)))"
    using run m by (simp del: tagAt.simps closeAt.simps)
  have "firstByte [CHR 0x00] = Some 0" "firstByte ''-->'' = Some 0x2D"
    by (simp_all add: firstByte_def)
  with nul closer show ?thesis by simp
qed

text \<open>
  C5, amended. For every language of the table, after \<open>ProcessConstants\<close> has completed,
  every complexity token, every single-line comment marker and the open token of every
  multi-line comment pair and of every quote pair has a first byte, and every bit of that
  byte is set in the mask of the category; the close tokens of the pairs are not covered
  by the mask. Consequently a scan byte that is not contained in the mask, and in
  particular a scan byte other than zero whose bitwise AND with the mask is zero, is
  not the first byte of any of these tokens of the category.
\<close>

theorem C5_masks_cover_first_bytes:
  assumes "ProcessConstants e g = (out, Inr g')"
    and "loadDatabase e g = (out0, Inr database)"
    and "visits (range2 e database) database"
    and "(name, value) \<in> set database"
  shows "\<exists>f. LanguageFeatures g' name = Some f \<and>
    (\<forall>v\<in>set (ComplexityChecks value).
       (\<exists>c. firstByte v = Some c \<and> c AND ComplexityCheckMask f = c) \<and>
       (\<forall>b. b AND ComplexityCheckMask f \<noteq> b \<longrightarrow> firstByte v \<noteq> Some b) \<and>
       (\<forall>b. b \<noteq> 0 \<and> b AND ComplexityCheckMask f = 0 \<longrightarrow> firstByte v \<noteq> Some b)) \<and>
    (\<forall>v\<in>set (LineComment value).
       (\<exists>c. firstByte v = Some c \<and> c AND SingleLineCommentMask f = c) \<and>
       (\<forall>b. b AND SingleLineCommentMask f \<noteq> b \<longrightarrow> firstByte v \<noteq> Some b) \<and>
       (\<forall>b. b \<noteq> 0 \<and> b AND SingleLineCommentMask f = 0 \<longrightarrow> firstByte v \<noteq> Some b)) \<and>
    (\<forall>p\<in>set (MultiLine value).
       (\<exists>c. firstByte (fst p) = Some c \<and> c AND MultiLineCommentMask f = c) \<and>
       (\<forall>b. b AND MultiLineCommentMask f \<noteq> b \<longrightarrow> firstByte (fst p) \<noteq> Some b) \<and>
       (\<forall>b. b \<noteq> 0 \<and> b AND MultiLineCommentMask f = 0 \<longrightarrow> firstByte (fst p) \<noteq> Some b)) \<and>
    (\<forall>p\<in>set (Quotes value).
       (\<exists>c. firstByte (fst p) = Some c \<and> c AND StringCheckMask f = c) \<and>
       (\<forall>b. b AND StringCheckMask f \<noteq> b \<longrightarrow> firstByte (fst p) \<noteq> Some b) \<and>
       (\<forall>b. b \<noteq> 0 \<and> b AND StringCheckMask f = 0 \<longrightarrow> firstByte (fst p) \<noteq> Some b))"
proof -
  from ProcessConstants_entry [OF assms] obtain f where
    g': "LanguageFeatures g' name = Some f" and f: "languageFeature (Complexity g) value = Inr f"
    by blast
  note m = languageFeature_masks [OF f]
  have c1: "\<forall>v\<in>set (ComplexityChecks value).
       (\<exists>c. firstByte v = Some c \<and> c AND ComplexityCheckMask f = c) \<and>
       (\<forall>b. b AND ComplexityCheckMask f \<noteq> b \<longrightarrow> firstByte v \<noteq> Some b) \<and>
       (\<forall>b. b \<noteq> 0 \<and> b AND ComplexityCheckMask f = 0 \<longrightarrow> firstByte v \<noteq> Some b)"
  proof
    fix v assume "v \<in> set (ComplexityChecks value)"
    from m(1) [OF this] show "(\<exists>c. firstByte v = Some c \<and> c AND ComplexityCheckMask f = c) \<and>
       (\<forall>b. b AND ComplexityCheckMask f \<noteq> b \<longrightarrow> firstByte v \<noteq> Some b) \<and>
       (\<forall>b. b \<noteq> 0 \<and> b AND ComplexityCheckMask f = 0 \<longrightarrow> firstByte v \<noteq> Some b)"
      by (rule covered_token)
  qed
  have c2: "\<forall>v\<in>set (LineComment value).
       (\<exists>c. firstByte v = Some c \<and> c AND SingleLineCommentMask f = c) \<and>
       (\<forall>b. b AND SingleLineCommentMask f \<noteq> b \<longrightarrow> firstByte v \<noteq> Some b) \<and>
       (\<forall>b. b \<noteq> 0 \<and> b AND SingleLineCommentMask f = 0 \<longrightarrow> firstByte v \<noteq> Some b)"
  proof
    fix v assume "v \<in> set (LineComment value)"
    from m(2) [OF this] show "(\<exists>c. firstByte v = Some c \<and> c AND SingleLineCommentMask f = c) \<and>
       (\<forall>b. b AND SingleLineCommentMask f \<noteq> b \<longrightarrow> firstByte v \<noteq> Some b) \<and>
       (\<forall>b. b \<noteq> 0 \<and> b AND SingleLineCommentMask f = 0 \<longrightarrow> firstByte v \<noteq> Some b)"
      by (rule covered_token)
  qed
  have c3: "\<forall>p\<in>set (MultiLine value).
       (\<exists>c. firstByte (fst p) = Some c \<and> c AND MultiLineCommentMask f = c) \<and>
       (\<forall>b. b AND MultiLineCommentMask f \<noteq> b \<longrightarrow> firstByte (fst p) \<noteq> Some b) \<and>
       (\<forall>b. b \<noteq> 0 \<and> b AND MultiLineCommentMask f = 0 \<longrightarrow> firstByte (fst p) \<noteq> Some b)"
  proof
    fix p assume "p \<in> set (MultiLine value)"
    from m(3) [OF this] show "(\<exists>c. firstByte (fst p) = Some c \<and> c AND MultiLineCommentMask f = c) \<and>
       (\<forall>b. b AND MultiLineCommentMask f \<noteq> b \<longrightarrow> firstByte (fst p) \<noteq> Some b) \<and>
       (\<forall>b. b \<noteq> 0 \<and> b AND MultiLineCommentMask f = 0 \<longrightarrow> firstByte (fst p) \<noteq> Some b)"
      by (rule covered_token)
  qed
  have c4: "\<forall>p\<in>set (Quotes value).
       (\<exists>c. firstByte (fst p) = Some c \<and> c AND StringCheckMask f = c) \<and>
       (\<forall>b. b AND StringCheckMask f \<noteq> b \<longrightarrow> firstByte (fst p) \<noteq> Some b) \<and>
       (\<forall>b. b \<noteq> 0 \<and> b AND StringCheckMask f = 0 \<longrightarrow> firstByte (fst p) \<noteq> Some b)"
  proof
    fix p assume "p \<in> set (Quotes value)"
    from m(4) [OF this] show "(\<exists>c. firstByte (fst p) = Some c \<and> c AND StringCheckMask f = c) \<and>
       (\<forall>b. b AND StringCheckMask f \<noteq> b \<longrightarrow> firstByte (fst p) \<noteq> Some b) \<and>
       (\<forall>b. b \<noteq> 0 \<and> b AND StringCheckMask f = 0 \<longrightarrow> firstByte (fst p) \<noteq> Some b)"
      by (rule covered_token)
  qed
  from g' c1 c2 c3 c4 show ?thesis by (intro exI [of _ f] conjI)
qed

theorem C5_masks_cover_first_bytes_witness:
  "visits (range2 (sampleEnv [(''Go'', sampleLanguage)]) [(''Go'', sampleLanguage)])
     [(''Go'', sampleLanguage)]
   \<and> (\<exists>out g' f.
     ProcessConstants (sampleEnv [(''Go'', sampleLanguage)]) (initial (sampleEnv [])) = (out, Inr g')
     \<and> LanguageFeatures g' ''Go'' = Some f
     \<and> 0x2F AND SingleLineCommentMask f = 0x2F
     \<and> 0x69 AND ComplexityCheckMask f = 0x69
     \<and> 0x66 AND ComplexityCheckMask f = 0x66)"
proof -
  let ?l = "sampleLanguage"
  let ?e = "sampleEnv [(''Go'', ?l)]"
  let ?g = "initial (sampleEnv [])"
  have trace: "\<not> Trace ?g" by (simp add: initial_def)
  from sampleEnv_runs [OF trace sample_tokensNonEmpty, of "''Go''"]
  obtain out g' where run: "ProcessConstants ?e ?g = (out, Inr g')"
    by blast
  have load: "loadDatabase ?e ?g = ([], Inr [(''Go'', ?l)])"
    by (rule sampleEnv_loads) (rule trace)
  have visit: "visits (range2 ?e [(''Go'', ?l)]) [(''Go'', ?l)]"
    by (rule sampleEnv_visits) simp
  have mem: "(''Go'', ?l) \<in> set [(''Go'', ?l)]" by simp
  from C5_masks_cover_first_bytes [OF run load visit mem]
  obtain f where g': "LanguageFeatures g' ''Go'' = Some f"
    and c: "\<forall>v\<in>set (ComplexityChecks ?l).
       (\<exists>c. firstByte v = Some c \<and> c AND ComplexityCheckMask f = c) \<and>
       (\<forall>b. b AND ComplexityCheckMask f \<noteq> b \<longrightarrow> firstByte v \<noteq> Some b) \<and>
       (\<forall>b. b \<noteq> 0 \<and> b AND ComplexityCheckMask f = 0 \<longrightarrow> firstByte v \<noteq> Some b)"
    and s: "\<forall>v\<in>set (LineComment ?l).
       (\<exists>c. firstByte v = Some c \<and> c AND SingleLineCommentMask f = c) \<and>
       (\<forall>b. b AND SingleLineCommentMask f \<noteq> b \<longrightarrow> firstByte v \<noteq> Some b) \<and>
       (\<forall>b. b \<noteq> 0 \<and> b AND SingleLineCommentMask f = 0 \<longrightarrow> firstByte v \<noteq> Some b)"
    by (elim exE conjE) (rule that; assumption)
  have "''//'' \<in> set (LineComment ?l)" "''if '' \<in> set (ComplexityChecks ?l)"
    "''for '' \<in> set (ComplexityChecks ?l)"
    by (simp_all add: sampleLanguage_def)
  from s [THEN bspec, OF this(1), THEN conjunct1] c [THEN bspec, OF this(2), THEN conjunct1]
    c [THEN bspec, OF this(3), THEN conjunct1]
  have "0x2F AND SingleLineCommentMask f = 0x2F" "0x69 AND ComplexityCheckMask f = 0x69"
    "0x66 AND ComplexityCheckMask f = 0x66"
    by (simp_all add: firstByte_def)
  with run g' visit show ?thesis by blast
qed

subsection \<open>Extension resolution (C6)\<close>

text \<open>
  C6. After \<open>ProcessConstants\<close> has completed, \<open>ExtensionToLanguage\<close> maps every extension
  key to one language name, every extension that a language of the table declares is a
  key and is mapped to a language that declares it, and every language name that is a
  value of \<open>ExtensionToLanguage\<close> is a key of \<open>LanguageFeatures\<close>. The last part is stated
  for every start state in which it already holds; in the initial package state both
  maps are empty.
\<close>

theorem C6_extension_resolution:
  assumes "ProcessConstants e g = (out, Inr g')"
    and "loadDatabase e g = (out0, Inr database)"
    and "visits (range1 e database) database" and "visits (range2 e database) database"
    and "\<forall>ext name. ExtensionToLanguage g ext = Some name \<longrightarrow> name \<in> dom (LanguageFeatures g)"
  shows "(\<forall>ext n1 n2. ExtensionToLanguage g' ext = Some n1 \<longrightarrow>
            ExtensionToLanguage g' ext = Some n2 \<longrightarrow> n1 = n2) \<and>
         (\<forall>ext. declaring database ext \<noteq> {} \<longrightarrow>
            (\<exists>name\<in>declaring database ext. ExtensionToLanguage g' ext = Some name)) \<and>
         (\<forall>ext name. ExtensionToLanguage g' ext = Some name \<longrightarrow>
            name \<in> dom (LanguageFeatures g'))"
proof -
  from assms(1) obtain out1 db features where
    "loadDatabase e g = (out1, Inr db)"
    "languageFeaturesLoop (Complexity g) (range2 e db) (LanguageFeatures g) = Inr features"
    "g' = g\<lparr>ExtensionToLanguage := extensionToLanguageLoop (range1 e db) (ExtensionToLanguage g),
            LanguageFeatures := features\<rparr>"
    by (rule ProcessConstantsE)
  with assms(2) have
    loop: "languageFeaturesLoop (Complexity g) (range2 e database) (LanguageFeatures g) = Inr features"
    and ext: "ExtensionToLanguage g' =
      extensionToLanguageLoop (range1 e database) (ExtensionToLanguage g)"
    and feat: "LanguageFeatures g' = features"
    by simp_all
  from assms(3,4) have sets: "set (range1 e database) = set database"
    "set (range2 e database) = set database"
    by (simp_all add: visits_def)
  have dom: "dom features = dom (LanguageFeatures g) \<union> fst ` set database"
    using languageFeaturesLoop_dom [OF loop] by (simp add: sets)
  have decl: "declaring (range1 e database) x = declaring database x" for x
    by (rule declaring_cong) (rule sets)
  have "name \<in> dom (LanguageFeatures g')" if "ExtensionToLanguage g' x = Some name" for x name
  proof -
    from that extensionToLanguageLoop_declared [of "range1 e database" "ExtensionToLanguage g" x name]
    have "ExtensionToLanguage g x = Some name \<or> name \<in> declaring database x"
      by (simp add: ext decl)
    then show ?thesis
    proof
      assume "ExtensionToLanguage g x = Some name"
      with assms(5) show ?thesis by (auto simp: feat dom)
    next
      assume "name \<in> declaring database x"
      then have "name \<in> fst ` set database" by (force simp: declaring_def)
      then show ?thesis by (simp add: feat dom)
    qed
  qed
  moreover have "\<exists>name\<in>declaring database x. ExtensionToLanguage g' x = Some name"
    if "declaring database x \<noteq> {}" for x
    using extensionToLanguageLoop_resolves [of "range1 e database" x "ExtensionToLanguage g"] that
    by (simp add: ext decl)
  ultimately show ?thesis by auto
qed

theorem C6_extension_resolution_witness:
  "visits (range1 (sampleEnv [(''Go'', sampleLanguage)]) [(''Go'', sampleLanguage)])
     [(''Go'', sampleLanguage)]
   \<and> visits (range2 (sampleEnv [(''Go'', sampleLanguage)]) [(''Go'', sampleLanguage)])
     [(''Go'', sampleLanguage)]
   \<and> (\<exists>out g'.
        ProcessConstants (sampleEnv [(''Go'', sampleLanguage)])
          (initial (sampleEnv [(''Go'', sampleLanguage)])) = (out, Inr g')
        \<and> ExtensionToLanguage g' ''go'' = Some ''Go''
        \<and> ''Go'' \<in> dom (LanguageFeatures g'))"
proof -
  let ?db = "[(''Go'', sampleLanguage)]"
  let ?e = "sampleEnv ?db"
  let ?g = "initial ?e"
  have load: "loadDatabase ?e ?g = ([], Inr ?db)"
    by (rule sampleEnv_loads) (simp add: initial_def)
  have v1: "visits (range1 ?e ?db) ?db" and v2: "visits (range2 ?e ?db) ?db"
    by (rule sampleEnv_visits, simp)+
  have "\<forall>entry\<in>set (range2 ?e ?db). tokensNonEmpty (snd entry)"
    by (simp add: sampleEnv_def sample_tokensNonEmpty)
  from ProcessConstants_returns [OF load this]
  obtain out g' where run: "ProcessConstants ?e ?g = (out, Inr g')" by blast
  have start: "\<forall>ext name. ExtensionToLanguage ?g ext = Some name \<longrightarrow> name \<in> dom (LanguageFeatures ?g)"
    by (simp add: initial_def)
  have decl: "declaring ?db ''go'' = {''Go''}"
    by (simp add: declaring_Cons declaring_Nil sampleLanguage_def)
  note c = C6_extension_resolution [OF run load v1 v2 start]
  from c [THEN conjunct2, THEN conjunct1, THEN spec, of "''go''"] decl
  have go: "ExtensionToLanguage g' ''go'' = Some ''Go''"
    by simp
  from c [THEN conjunct2, THEN conjunct2, THEN spec, THEN spec, of "''go''" "''Go''"] go
  have "''Go'' \<in> dom (LanguageFeatures g')"
    by simp
  with go run v1 v2 show ?thesis by blast
qed

subsection \<open>Two runs of \<open>ProcessConstants\<close> (C7)\<close>

text \<open>
  C7, as stated, fails. The first loop of \<open>ProcessConstants\<close> ranges over a Go map, whose
  iteration order is unspecified and may change from one run to the next, and a later
  assignment to \<open>ExtensionToLanguage[ext]\<close> overwrites an earlier one. With a table in
  which two languages declare the extension \<open>h\<close>, two runs from the same state that
  visit the two entries in opposite orders resolve \<open>h\<close> to different languages.
\<close>

theorem C7_counterexample:
  "visits
     (range1 (sampleEnv
        [(''C Header'', sampleLanguage \<lparr>Extensions := [''h'']\<rparr>),
         (''C++ Header'', sampleLanguage \<lparr>Extensions := [''h'', ''hpp'']\<rparr>)])
        [(''C Header'', sampleLanguage \<lparr>Extensions := [''h'']\<rparr>),
         (''C++ Header'', sampleLanguage \<lparr>Extensions := [''h'', ''hpp'']\<rparr>)])
     [(''C Header'', sampleLanguage \<lparr>Extensions := [''h'']\<rparr>),
      (''C++ Header'', sampleLanguage \<lparr>Extensions := [''h'', ''hpp'']\<rparr>)]
   \<and> visits
     (range1 (sampleEnv
        [(''C Header'', sampleLanguage \<lparr>Extensions := [''h'']\<rparr>),
         (''C++ Header'', sampleLanguage \<lparr>Extensions := [''h'', ''hpp'']\<rparr>)] \<lparr>range1 := rev\<rparr>)
        [(''C Header'', sampleLanguage \<lparr>Extensions := [''h'']\<rparr>),
         (''C++ Header'', sampleLanguage \<lparr>Extensions := [''h'', ''hpp'']\<rparr>)])
     [(''C Header'', sampleLanguage \<lparr>Extensions := [''h'']\<rparr>),
      (''C++ Header'', sampleLanguage \<lparr>Extensions := [''h'', ''hpp'']\<rparr>)]
   \<and> (case snd (ProcessConstants (sampleEnv
          [(''C Header'', sampleLanguage \<lparr>Extensions := [''h'']\<rparr>),
           (''C++ Header'', sampleLanguage \<lparr>Extensions := [''h'', ''hpp'']\<rparr>)])
          (initial (sampleEnv []))) of
        Inl p \<Rightarrow> False
      | Inr g1 \<Rightarrow> ExtensionToLanguage g1 ''h'' = Some ''C++ Header'')
   \<and> (case snd (ProcessConstants (sampleEnv
          [(''C Header'', sampleLanguage \<lparr>Extensions := [''h'']\<rparr>),
           (''C++ Header'', sampleLanguage \<lparr>Extensions := [''h'', ''hpp'']\<rparr>)] \<lparr>range1 := rev\<rparr>)
          (initial (sampleEnv []))) of
        Inl p \<Rightarrow> False
      | Inr g2 \<Rightarrow> ExtensionToLanguage g2 ''h'' = Some ''C Header'')"
proof -
  let ?db = "[(''C Header'', sampleLanguage \<lparr>Extensions := [''h'']\<rparr>),
              (''C++ Header'', sampleLanguage \<lparr>Extensions := [''h'', ''hpp'']\<rparr>)]"
  let ?e1 = "sampleEnv ?db"
  let ?e2 = "sampleEnv ?db \<lparr>range1 := rev\<rparr>"
  let ?g = "initial (sampleEnv [])"
  have trace: "\<not> Trace ?g" and empty: "ExtensionToLanguage ?g = Map.empty"
    by (simp_all add: initial_def)
  have v1: "visits (range1 ?e1 ?db) ?db" and v2: "visits (range1 ?e2 ?db) ?db"
    by (simp_all add: visits_def sampleEnv_def insert_commute)
  have load1: "loadDatabase ?e1 ?g = ([], Inr ?db)"
    by (rule sampleEnv_loads) (rule trace)
  have load2: "loadDatabase ?e2 ?g = ([], Inr ?db)"
    using trace by (simp add: loadDatabase_def sampleEnv_def)
  have tokens: "tokensNonEmpty (sampleLanguage \<lparr>Extensions := exts\<rparr>)" for exts
    by (simp add: tokensNonEmpty_def sampleLanguage_def)
  have "\<forall>entry\<in>set (range2 ?e1 ?db). tokensNonEmpty (snd entry)"
    by (simp add: sampleEnv_def tokens)
  from ProcessConstants_returns [OF load1 this]
  obtain out1 g1 where run1: "ProcessConstants ?e1 ?g = (out1, Inr g1)" by blast
  have "\<forall>entry\<in>set (range2 ?e2 ?db). tokensNonEmpty (snd entry)"
    by (simp add: sampleEnv_def tokens)
  from ProcessConstants_returns [OF load2 this]
  obtain out2 g2 where run2: "ProcessConstants ?e2 ?g = (out2, Inr g2)" by blast
  from run1 load1 have "ExtensionToLanguage g1 =
      extensionToLanguageLoop (range1 ?e1 ?db) (ExtensionToLanguage ?g)"
    by (elim ProcessConstantsE) simp
  then have h1: "ExtensionToLanguage g1 ''h'' = Some ''C++ Header''"
    by (simp add: empty sampleEnv_def)
  from run2 load2 have "ExtensionToLanguage g2 =
      extensionToLanguageLoop (range1 ?e2 ?db) (ExtensionToLanguage ?g)"
    by (elim ProcessConstantsE) simp
  then have h2: "ExtensionToLanguage g2 ''h'' = Some ''C Header''"
    by (simp add: empty sampleEnv_def)
  from v1 v2 run1 run2 h1 h2 show ?thesis by simp
qed

text \<open>
  C7, amended. In each run of \<open>ProcessConstants\<close> that completes, an extension that some
  language of the table declares resolves to the language of the entry that the first
  \<open>range\<close> loop of that run visits last among the entries declaring it, and an extension
  that no language declares keeps what it resolved to before. Hence for a table in which
  no extension is declared by two different languages, two runs from the same state
  produce the same \<open>ExtensionToLanguage\<close>, in whatever order the loops of the two runs
  visit the entries of the table.
\<close>

theorem C7_extension_resolution_deterministic:
  assumes "ProcessConstants e1 g = (out1, Inr g1)" and "ProcessConstants e2 g = (out2, Inr g2)"
    and "loadDatabase e1 g = (o1, Inr database)" and "loadDatabase e2 g = (o2, Inr database)"
    and "visits (range1 e1 database) database" and "visits (range1 e2 database) database"
  shows "(\<forall>ext. ExtensionToLanguage g1 ext =
            (case lastDeclaring (range1 e1 database) ext of
               None \<Rightarrow> ExtensionToLanguage g ext | Some name \<Rightarrow> Some name)) \<and>
         (\<forall>ext. ExtensionToLanguage g2 ext =
            (case lastDeclaring (range1 e2 database) ext of
               None \<Rightarrow> ExtensionToLanguage g ext | Some name \<Rightarrow> Some name)) \<and>
         ((\<forall>ext n1 n2. n1 \<in> declaring database ext \<longrightarrow> n2 \<in> declaring database ext \<longrightarrow> n1 = n2)
            \<longrightarrow> ExtensionToLanguage g1 = ExtensionToLanguage g2)"
proof (intro conjI allI impI)
  from assms(1,3) have 1: "ExtensionToLanguage g1 =
      extensionToLanguageLoop (range1 e1 database) (ExtensionToLanguage g)"
    by (elim ProcessConstantsE) simp
  from assms(2,4) have 2: "ExtensionToLanguage g2 =
      extensionToLanguageLoop (range1 e2 database) (ExtensionToLanguage g)"
    by (elim ProcessConstantsE) simp
  show "ExtensionToLanguage g1 ext =
      (case lastDeclaring (range1 e1 database) ext of
         None \<Rightarrow> ExtensionToLanguage g ext | Some name \<Rightarrow> Some name)" for ext
    unfolding 1 by (rule extensionToLanguageLoop_last)
  show "ExtensionToLanguage g2 ext =
      (case lastDeclaring (range1 e2 database) ext of
         None \<Rightarrow> ExtensionToLanguage g ext | Some name \<Rightarrow> Some name)" for ext
    unfolding 2 by (rule extensionToLanguageLoop_last)
  assume unique:
    "\<forall>ext n1 n2. n1 \<in> declaring database ext \<longrightarrow> n2 \<in> declaring database ext \<longrightarrow> n1 = n2"
  from assms(5,6) have sets: "set (range1 e1 database) = set database"
    "set (range1 e2 database) = set database"
    by (simp_all add: visits_def)
  show "ExtensionToLanguage g1 = ExtensionToLanguage g2"
  proof
    fix ext
    have "\<forall>n1 n2. n1 \<in> declaring (range1 e1 database) ext \<longrightarrow>
        n2 \<in> declaring (range1 e1 database) ext \<longrightarrow> n1 = n2"
      using unique declaring_cong [OF sets(1), of ext] by simp
    from extensionToLanguageLoop_order [OF _ this, of "range1 e2 database" "ExtensionToLanguage g"]
    show "ExtensionToLanguage g1 ext = ExtensionToLanguage g2 ext"
      by (simp add: 1 2 sets)
  qed
qed

theorem C7_extension_resolution_deterministic_witness:
  "visits
     (range1 (sampleEnv [(''Go'', sampleLanguage), (''C'', sampleLanguage \<lparr>Extensions := [''c'', ''h'']\<rparr>)])
        [(''Go'', sampleLanguage), (''C'', sampleLanguage \<lparr>Extensions := [''c'', ''h'']\<rparr>)])
     [(''Go'', sampleLanguage), (''C'', sampleLanguage \<lparr>Extensions := [''c'', ''h'']\<rparr>)]
   \<and> visits
     (range1 (sampleEnv [(''Go'', sampleLanguage), (''C'', sampleLanguage \<lparr>Extensions := [''c'', ''h'']\<rparr>)]
               \<lparr>range1 := rev\<rparr>)
        [(''Go'', sampleLanguage), (''C'', sampleLanguage \<lparr>Extensions := [''c'', ''h'']\<rparr>)])
     [(''Go'', sampleLanguage), (''C'', sampleLanguage \<lparr>Extensions := [''c'', ''h'']\<rparr>)]
   \<and> (\<exists>out1 g1 out2 g2.
        ProcessConstants
          (sampleEnv [(''Go'', sampleLanguage), (''C'', sampleLanguage \<lparr>Extensions := [''c'', ''h'']\<rparr>)])
          (initial (sampleEnv [])) = (out1, Inr g1)
        \<and> ProcessConstants
          (sampleEnv [(''Go'', sampleLanguage), (''C'', sampleLanguage \<lparr>Extensions := [''c'', ''h'']\<rparr>)]
             \<lparr>range1 := rev\<rparr>)
          (initial (sampleEnv [])) = (out2, Inr g2)
        \<and> ExtensionToLanguage g1 = ExtensionToLanguage g2)
   \<and> visits
     (range1 (sampleEnv
        [(''C Header'', sampleLanguage \<lparr>Extensions := [''h'']\<rparr>),
         (''C++ Header'', sampleLanguage \<lparr>Extensions := [''h'', ''hpp'']\<rparr>)] \<lparr>range1 := rev\<rparr>)
        [(''C Header'', sampleLanguage \<lparr>Extensions := [''h'']\<rparr>),
         (''C++ Header'', sampleLanguage \<lparr>Extensions := [''h'', ''hpp'']\<rparr>)])
     [(''C Header'', sampleLanguage \<lparr>Extensions := [''h'']\<rparr>),
      (''C++ Header'', sampleLanguage \<lparr>Extensions := [''h'', ''hpp'']\<rparr>)]
   \<and> (\<exists>out1 g1 out2 g2.
        ProcessConstants (sampleEnv
          [(''C Header'', sampleLanguage \<lparr>Extensions := [''h'']\<rparr>),
           (''C++ Header'', sampleLanguage \<lparr>Extensions := [''h'', ''hpp'']\<rparr>)])
          (initial (sampleEnv [])) = (out1, Inr g1)
        \<and> ProcessConstants (sampleEnv
          [(''C Header'', sampleLanguage \<lparr>Extensions := [''h'']\<rparr>),
           (''C++ Header'', sampleLanguage \<lparr>Extensions := [''h'', ''hpp'']\<rparr>)] \<lparr>range1 := rev\<rparr>)
          (initial (sampleEnv [])) = (out2, Inr g2)
        \<and> ExtensionToLanguage g1 ''h'' = Some ''C++ Header''
        \<and> ExtensionToLanguage g2 ''h'' = Some ''C Header''
        \<and> ExtensionToLanguage g1 ''hpp'' = Some ''C++ Header''
        \<and> ExtensionToLanguage g2 ''hpp'' = Some ''C++ Header'')"
proof -
  let ?g = "initial (sampleEnv [])"
  have trace: "\<not> Trace ?g"
    by (simp add: initial_def)
  have tokens: "tokensNonEmpty (sampleLanguage \<lparr>Extensions := exts\<rparr>)" for exts
    by (simp add: tokensNonEmpty_def sampleLanguage_def)
  have runs: "\<exists>out1 g1 out2 g2.
      ProcessConstants (sampleEnv db) ?g = (out1, Inr g1) \<and>
      ProcessConstants (sampleEnv db \<lparr>range1 := rev\<rparr>) ?g = (out2, Inr g2)"
    if "\<forall>entry\<in>set db. tokensNonEmpty (snd entry)" for db
  proof -
    have load1: "loadDatabase (sampleEnv db) ?g = ([], Inr db)"
      by (rule sampleEnv_loads) (rule trace)
    have load2: "loadDatabase (sampleEnv db \<lparr>range1 := rev\<rparr>) ?g = ([], Inr db)"
      using trace by (simp add: loadDatabase_def sampleEnv_def)
    have "\<forall>entry\<in>set (range2 (sampleEnv db) db). tokensNonEmpty (snd entry)"
      using that by (simp add: sampleEnv_def)
    from ProcessConstants_returns [OF load1 this]
    obtain out1 g1 where "ProcessConstants (sampleEnv db) ?g = (out1, Inr g1)" by blast
    moreover have "\<forall>entry\<in>set (range2 (sampleEnv db \<lparr>range1 := rev\<rparr>) db). tokensNonEmpty (snd entry)"
      using that by (simp add: sampleEnv_def)
    from ProcessConstants_returns [OF load2 this]
    obtain out2 g2 where "ProcessConstants (sampleEnv db \<lparr>range1 := rev\<rparr>) ?g = (out2, Inr g2)"
      by blast
    ultimately show ?thesis by blast
  qed
  have loads: "loadDatabase (sampleEnv db) ?g = ([], Inr db)"
    "loadDatabase (sampleEnv db \<lparr>range1 := rev\<rparr>) ?g = ([], Inr db)" for db
    using trace by (simp_all add: loadDatabase_def sampleEnv_def)

  let ?db = "[(''Go'', sampleLanguage), (''C'', sampleLanguage \<lparr>Extensions := [''c'', ''h'']\<rparr>)]"
  let ?e1 = "sampleEnv ?db"
  let ?e2 = "sampleEnv ?db \<lparr>range1 := rev\<rparr>"
  have v1: "visits (range1 ?e1 ?db) ?db" and v2: "visits (range1 ?e2 ?db) ?db"
    by (simp_all add: visits_def sampleEnv_def insert_commute)
  have "\<forall>entry\<in>set ?db. tokensNonEmpty (snd entry)"
    by (simp add: tokens sample_tokensNonEmpty)
  from runs [OF this] obtain out1 g1 out2 g2 where
    run1: "ProcessConstants ?e1 ?g = (out1, Inr g1)" and
    run2: "ProcessConstants ?e2 ?g = (out2, Inr g2)"
    by blast
  have decl: "declaring ?db ext =
      (if ext = ''go'' then {''Go''} else if ext = ''c'' \<or> ext = ''h'' then {''C''} else {})" for ext
    by (simp add: declaring_Cons declaring_Nil sampleLanguage_def)
  have unique: "\<forall>ext n1 n2. n1 \<in> declaring ?db ext \<longrightarrow> n2 \<in> declaring ?db ext \<longrightarrow> n1 = n2"
    by (simp add: decl)
  from C7_extension_resolution_deterministic [OF run1 run2 loads v1 v2, THEN conjunct2, THEN conjunct2, THEN mp, OF unique]
  have same: "ExtensionToLanguage g1 = ExtensionToLanguage g2" .
  with run1 run2 have part1: "\<exists>out1 g1 out2 g2.
        ProcessConstants ?e1 ?g = (out1, Inr g1) \<and> ProcessConstants ?e2 ?g = (out2, Inr g2)
        \<and> ExtensionToLanguage g1 = ExtensionToLanguage g2"
    by blast

  let ?hs = "[(''C Header'', sampleLanguage \<lparr>Extensions := [''h'']\<rparr>),
              (''C++ Header'', sampleLanguage \<lparr>Extensions := [''h'', ''hpp'']\<rparr>)]"
  let ?f1 = "sampleEnv ?hs"
  let ?f2 = "sampleEnv ?hs \<lparr>range1 := rev\<rparr>"
  have w1: "visits (range1 ?f1 ?hs) ?hs" and w2: "visits (range1 ?f2 ?hs) ?hs"
    by (simp_all add: visits_def sampleEnv_def insert_commute)
  have "\<forall>entry\<in>set ?hs. tokensNonEmpty (snd entry)"
    by (simp add: tokens)
  from runs [OF this] obtain p1 h1 p2 h2 where
    hrun1: "ProcessConstants ?f1 ?g = (p1, Inr h1)" and
    hrun2: "ProcessConstants ?f2 ?g = (p2, Inr h2)"
    by blast
  note last = C7_extension_resolution_deterministic [OF hrun1 hrun2 loads w1 w2]
  have "ExtensionToLanguage h1 ''h'' = Some ''C++ Header''"
    "ExtensionToLanguage h1 ''hpp'' = Some ''C++ Header''"
    by (simp_all add: last [THEN conjunct1, rule_format] sampleEnv_def)
  moreover have "ExtensionToLanguage h2 ''h'' = Some ''C Header''"
    "ExtensionToLanguage h2 ''hpp'' = Some ''C++ Header''"
    by (simp_all add: last [THEN conjunct2, THEN conjunct1, rule_format] sampleEnv_def)
  ultimately have part2: "\<exists>out1 g1 out2 g2.
        ProcessConstants ?f1 ?g = (out1, Inr g1) \<and> ProcessConstants ?f2 ?g = (out2, Inr g2)
        \<and> ExtensionToLanguage g1 ''h'' = Some ''C++ Header''
        \<and> ExtensionToLanguage g2 ''h'' = Some ''C Header''
        \<and> ExtensionToLanguage g1 ''hpp'' = Some ''C++ Header''
        \<and> ExtensionToLanguage g2 ''hpp'' = Some ''C++ Header''"
    using hrun1 hrun2 by blast
  from v1 v2 part1 w2 part2 show ?thesis by (intro conjI)
qed

subsection \<open>Queues between the stages (C8)\<close>

text \<open>
  C8, as stated, fails in its count of the capacities. \<open>processor.go\<close> declares five
  queue-capacity variables, \<open>FileListQueueSize\<close>, \<open>FileReadJobQueueSize\<close>,
  \<open>FileReadContentJobQueueSize\<close>, \<open>FileProcessJobQueueSize\<close> and
  \<open>FileSummaryJobQueueSize\<close>, and \<open>Process\<close> makes three queues: with the five variables
  set to 1, 2, 3, 4 and 5 the queues have the capacities 1, 3 and 5, and the variables
  named after the load and the process stage, set to 2 and 4, are the capacity of no
  queue that \<open>Process\<close> makes.
\<close>

theorem C8_counterexample:
  "filter isMakeChan
     (fst (Process (sampleEnv [(''Go'', sampleLanguage)])
        (initial (sampleEnv [(''Go'', sampleLanguage)])
           \<lparr>FileListQueueSize := 1, FileReadJobQueueSize := 2,
            FileReadContentJobQueueSize := 3, FileProcessJobQueueSize := 4,
            FileSummaryJobQueueSize := 5\<rparr>)))
   = [MakeChan fileListQueue 1, MakeChan fileReadContentJobQueue 3, MakeChan fileSummaryJobQueue 5]"
proof -
  let ?e = "sampleEnv [(''Go'', sampleLanguage)]"
  let ?g = "initial ?e
           \<lparr>FileListQueueSize := 1, FileReadJobQueueSize := 2,
            FileReadContentJobQueueSize := 3, FileProcessJobQueueSize := 4,
            FileSummaryJobQueueSize := 5\<rparr>"
  have flags: "\<not> Languages ?g" "\<not> Trace ?g"
    and sizes: "allocates ?e (FileListQueueSize ?g)" "allocates ?e (FileReadContentJobQueueSize ?g)"
      "allocates ?e (FileSummaryJobQueueSize ?g)"
    and caps: "FileListQueueSize ?g = 1" "FileReadContentJobQueueSize ?g = 3"
      "FileSummaryJobQueueSize ?g = 5"
    by (simp_all add: initial_def sampleEnv_def allocates_def)
  have load: "loadDatabase ?e ?g = ([], Inr [(''Go'', sampleLanguage)])"
    by (rule sampleEnv_loads) (rule flags)
  have "\<forall>entry\<in>set (range2 ?e [(''Go'', sampleLanguage)]). tokensNonEmpty (snd entry)"
    by (simp add: sampleEnv_def sample_tokensNonEmpty)
  from Process_observed [OF flags(1) load this sizes]
  obtain out g' where "Process ?e ?g = (out, Inr g')"
    and "filter isMakeChan out =
      [MakeChan fileListQueue (FileListQueueSize ?g),
       MakeChan fileReadContentJobQueue (FileReadContentJobQueueSize ?g),
       MakeChan fileSummaryJobQueue (FileSummaryJobQueueSize ?g)]"
    by blast
  then show ?thesis by (simp only: caps fst_conv)
qed

text \<open>
  C8, amended. When \<open>Process\<close> runs the pipeline (the flag \<open>Languages\<close> is not set, the
  table loads, no token of it is empty and \<open>make\<close> returns a channel for each of the three
  capacities), it makes exactly three channels, one for each boundary between the four
  stages: \<open>fileListQueue\<close> from the walker to the file readers,
  \<open>fileReadContentJobQueue\<close> from the readers to the processors and
  \<open>fileSummaryJobQueue\<close> from the processors to the summary. The capacity of each is a
  variable of its own, \<open>FileListQueueSize\<close>, \<open>FileReadContentJobQueueSize\<close> and
  \<open>FileSummaryJobQueueSize\<close>, so the three capacities can be set independently. The
  other two declared capacities, \<open>FileReadJobQueueSize\<close> and \<open>FileProcessJobQueueSize\<close>,
  are the capacity of no queue that \<open>Process\<close> makes: whatever they are set to, \<open>Process\<close>
  makes the same queues.
\<close>

theorem C8_queues_between_stages:
  assumes "\<not> Languages g"
    and "loadDatabase e g = (out0, Inr database)"
    and "\<forall>entry\<in>set (range2 e database). tokensNonEmpty (snd entry)"
    and "allocates e (FileListQueueSize g)" and "allocates e (FileReadContentJobQueueSize g)"
    and "allocates e (FileSummaryJobQueueSize g)"
  shows "\<exists>out g' root. Process e g = (out, Inr g') \<and>
    filter isMakeChan out =
      [MakeChan fileListQueue (FileListQueueSize g),
       MakeChan fileReadContentJobQueue (FileReadContentJobQueueSize g),
       MakeChan fileSummaryJobQueue (FileSummaryJobQueueSize g)] \<and>
    filter isStage out =
      [GoWalkDirectoryParallel root fileListQueue,
       GoFileReaderWorker fileListQueue fileReadContentJobQueue,
       GoFileProcessorWorker fileReadContentJobQueue fileSummaryJobQueue,
       FileSummarize fileSummaryJobQueue] \<and>
    (\<forall>a b. filter isMakeChan
             (fst (Process e (g\<lparr>FileReadJobQueueSize := a, FileProcessJobQueueSize := b\<rparr>)))
           = filter isMakeChan out)"
proof -
  from Process_observed [OF assms] obtain out g' where
    run: "Process e g = (out, Inr g')" and
    chans: "filter isMakeChan out =
      [MakeChan fileListQueue (FileListQueueSize g),
       MakeChan fileReadContentJobQueue (FileReadContentJobQueueSize g),
       MakeChan fileSummaryJobQueue (FileSummaryJobQueueSize g)]" and
    stages: "filter isStage out =
      [GoWalkDirectoryParallel (case DirFilePaths g of [] \<Rightarrow> ''.'' | root # _ \<Rightarrow> root) fileListQueue,
       GoFileReaderWorker fileListQueue fileReadContentJobQueue,
       GoFileProcessorWorker fileReadContentJobQueue fileSummaryJobQueue,
       FileSummarize fileSummaryJobQueue]"
    by blast
  have other: "filter isMakeChan
        (fst (Process e (g\<lparr>FileReadJobQueueSize := a, FileProcessJobQueueSize := b\<rparr>)))
      = filter isMakeChan out" for a b
  proof -
    let ?g = "g\<lparr>FileReadJobQueueSize := a, FileProcessJobQueueSize := b\<rparr>"
    have "\<not> Languages ?g" "loadDatabase e ?g = (out0, Inr database)"
      "allocates e (FileListQueueSize ?g)" "allocates e (FileReadContentJobQueueSize ?g)"
      "allocates e (FileSummaryJobQueueSize ?g)"
      using assms by (simp_all add: loadDatabase_knobs)
    from Process_observed [OF this(1,2) assms(3) this(3,4,5)] obtain out' g'' where
      "Process e ?g = (out', Inr g'')" and
      "filter isMakeChan out' =
        [MakeChan fileListQueue (FileListQueueSize ?g),
         MakeChan fileReadContentJobQueue (FileReadContentJobQueueSize ?g),
         MakeChan fileSummaryJobQueue (FileSummaryJobQueueSize ?g)]"
      by blast
    then show ?thesis by (simp add: chans)
  qed
  from run chans stages other show ?thesis by (intro exI conjI allI)
qed

theorem C8_queues_between_stages_witness:
  "\<not> Languages (initial (sampleEnv [(''Go'', sampleLanguage)])
       \<lparr>FileListQueueSize := 1, FileReadContentJobQueueSize := 2, FileSummaryJobQueueSize := 3\<rparr>)
   \<and> loadDatabase (sampleEnv [(''Go'', sampleLanguage)])
        (initial (sampleEnv [(''Go'', sampleLanguage)])
       \<lparr>FileListQueueSize := 1, FileReadContentJobQueueSize := 2, FileSummaryJobQueueSize := 3\<rparr>)
       = ([], Inr [(''Go'', sampleLanguage)])
   \<and> tokensNonEmpty sampleLanguage
   \<and> filter isMakeChan (fst (Process (sampleEnv [(''Go'', sampleLanguage)])
        (initial (sampleEnv [(''Go'', sampleLanguage)])
       \<lparr>FileListQueueSize := 1, FileReadContentJobQueueSize := 2, FileSummaryJobQueueSize := 3\<rparr>)))
       = [MakeChan fileListQueue 1, MakeChan fileReadContentJobQueue 2,
          MakeChan fileSummaryJobQueue 3]"
  using C8_queues_between_stages
    [of "initial (sampleEnv [(''Go'', sampleLanguage)])
       \<lparr>FileListQueueSize := 1, FileReadContentJobQueueSize := 2, FileSummaryJobQueueSize := 3\<rparr>"
        "sampleEnv [(''Go'', sampleLanguage)]" "[]" "[(''Go'', sampleLanguage)]"]
  by (auto simp: initial_def sampleEnv_def allocates_def loadDatabase_def tokensNonEmpty_def sampleLanguage_def)

subsection \<open>The frame of \<open>processFlags\<close> (C9)\<close>

text \<open>
  C9. \<open>processFlags\<close> returns the package state with \<open>Complexity\<close> cleared exactly when
  both \<open>More\<close> and \<open>Complexity\<close> were set, and with every other variable, the tables
  \<open>LanguageFeatures\<close> and \<open>ExtensionToLanguage\<close> among them, as it was. \<open>Process\<close> calls
  \<open>ProcessConstants\<close> before \<open>processFlags\<close>: on return from \<open>Process\<close> the two tables are
  those \<open>ProcessConstants\<close> built from the state \<open>Process\<close> was called in, so the features
  of every language of the table are compiled with the value \<open>Complexity\<close> had before
  the adjustment, while \<open>Complexity\<close> itself has the adjusted value.
\<close>

theorem C9_processFlags_frame:
  "snd (processFlags g) = g\<lparr>Complexity := Complexity g \<and> \<not> More g\<rparr> \<and>
   (\<not> Languages g \<longrightarrow> Process e g = (out, Inr g') \<longrightarrow>
      Complexity g' = (Complexity g \<and> \<not> More g) \<and>
      (\<exists>out1 g1. ProcessConstants e g = (out1, Inr g1) \<and>
         LanguageFeatures g' = LanguageFeatures g1 \<and>
         ExtensionToLanguage g' = ExtensionToLanguage g1) \<and>
      (\<forall>out0 database name value.
         loadDatabase e g = (out0, Inr database) \<longrightarrow> visits (range2 e database) database \<longrightarrow>
         (name, value) \<in> set database \<longrightarrow>
         (\<exists>f. LanguageFeatures g' name = Some f \<and>
              languageFeature (Complexity g) value = Inr f)))"
proof (intro conjI impI allI)
  show "snd (processFlags g) = g\<lparr>Complexity := Complexity g \<and> \<not> More g\<rparr>"
    by (rule processFlags_state)
next
  assume run: "\<not> Languages g" "Process e g = (out, Inr g')"
  from Process_state [OF run] obtain out1 g1 where
    pc: "ProcessConstants e g = (out1, Inr g1)" and
    g': "g' = g1\<lparr>Complexity := Complexity g \<and> \<not> More g,
            DirFilePaths := (if DirFilePaths g = [] then [''.''] else DirFilePaths g),
            SortBy := ToLower e (SortBy g)\<rparr>"
    by blast
  show "Complexity g' = (Complexity g \<and> \<not> More g)" by (simp add: g')
  show "\<exists>out1 g1. ProcessConstants e g = (out1, Inr g1) \<and>
         LanguageFeatures g' = LanguageFeatures g1 \<and>
         ExtensionToLanguage g' = ExtensionToLanguage g1"
    using pc by (simp add: g')
  fix out0 database name l
  assume "loadDatabase e g = (out0, Inr database)" "visits (range2 e database) database"
    "(name, l) \<in> set database"
  from ProcessConstants_entry [OF pc this]
  show "\<exists>f. LanguageFeatures g' name = Some f \<and> languageFeature (Complexity g) l = Inr f"
    by (simp add: g')
qed

theorem C9_processFlags_frame_witness:
  "\<not> Languages (initial (sampleEnv [(''Go'', sampleLanguage)]) \<lparr>Complexity := True, More := True\<rparr>)
   \<and> (\<exists>out g'.
        Process (sampleEnv [(''Go'', sampleLanguage)])
          (initial (sampleEnv [(''Go'', sampleLanguage)]) \<lparr>Complexity := True, More := True\<rparr>)
          = (out, Inr g')
        \<and> \<not> Complexity g'
        \<and> (\<exists>f. LanguageFeatures g' ''Go'' = Some f
               \<and> languageFeature True sampleLanguage = Inr f
               \<and> tagAt (Tokens f) ''if '' = None
               \<and> tagAt (Tokens f) ''//'' = Some (T_SLCOMMENT, Plain)))"
proof -
  let ?e = "sampleEnv [(''Go'', sampleLanguage)]"
  let ?g = "initial ?e \<lparr>Complexity := True, More := True\<rparr>"
  have flags: "\<not> Languages ?g" "\<not> Trace ?g" "Complexity ?g" "More ?g"
    and sizes: "allocates ?e (FileListQueueSize ?g)" "allocates ?e (FileReadContentJobQueueSize ?g)"
      "allocates ?e (FileSummaryJobQueueSize ?g)"
    by (simp_all add: initial_def sampleEnv_def allocates_def)
  have load: "loadDatabase ?e ?g = ([], Inr [(''Go'', sampleLanguage)])"
    by (rule sampleEnv_loads) (rule flags)
  have "\<forall>entry\<in>set (range2 ?e [(''Go'', sampleLanguage)]). tokensNonEmpty (snd entry)"
    by (simp add: sampleEnv_def sample_tokensNonEmpty)
  from Process_observed [OF flags(1) load this sizes]
  obtain out g' where run: "Process ?e ?g = (out, Inr g')" by blast
  have visit: "visits (range2 ?e [(''Go'', sampleLanguage)]) [(''Go'', sampleLanguage)]"
    by (rule sampleEnv_visits) simp
  from C9_processFlags_frame [of ?g ?e out g'] flags run load visit
  obtain f where "\<not> Complexity g'" and f: "LanguageFeatures g' ''Go'' = Some f"
    "languageFeature True sampleLanguage = Inr f"
    by auto
  moreover have "tagAt (Tokens f) ''if '' = None"
    "tagAt (Tokens f) ''//'' = Some (T_SLCOMMENT, Plain)"
    by (simp_all add: languageFeature_Tokens [OF f(2)] sampleLanguage_def del: tagAt.simps)
  ultimately show ?thesis using flags(1) run by blast
qed

subsection \<open>The default root path (C10)\<close>

text \<open>
  C10. When \<open>DirFilePaths\<close> is empty and the flag \<open>Languages\<close> is not set, and the table
  loads, no token of it is empty and \<open>make\<close> returns a channel for each of the three
  queue capacities (none is negative and none is more than the platform makes),
  \<open>Process\<close> returns, \<open>DirFilePaths\<close> is then the single path \<open>"."\<close>, and the walker
  is started once, on \<open>"."\<close>.
\<close>

theorem C10_empty_paths_default_to_dot:
  assumes "\<not> Languages g" and "DirFilePaths g = []"
    and "loadDatabase e g = (out0, Inr database)"
    and "\<forall>entry\<in>set (range2 e database). tokensNonEmpty (snd entry)"
    and "allocates e (FileListQueueSize g)" and "allocates e (FileReadContentJobQueueSize g)"
    and "allocates e (FileSummaryJobQueueSize g)"
  shows "\<exists>out g'. Process e g = (out, Inr g') \<and> DirFilePaths g' = [''.''] \<and>
           filter isWalk out = [GoWalkDirectoryParallel ''.'' fileListQueue]"
proof -
  from Process_returns [OF assms(1,3,4,5,6,7)] obtain prints g1 where
    prints: "\<forall>x\<in>set prints. isPrint x" and
    run: "Process e g =
      (prints @
       [MakeChan fileListQueue (FileListQueueSize g),
        MakeChan fileReadContentJobQueue (FileReadContentJobQueueSize g),
        MakeChan fileSummaryJobQueue (FileSummaryJobQueueSize g),
        GoWalkDirectoryParallel (case DirFilePaths g of [] \<Rightarrow> ''.'' | root # _ \<Rightarrow> root) fileListQueue,
        GoFileReaderWorker fileListQueue fileReadContentJobQueue,
        GoFileProcessorWorker fileReadContentJobQueue fileSummaryJobQueue,
        FileSummarize fileSummaryJobQueue] @
       (if FileOutput g = '''' then [Println (Text (fileSummarize e fileSummaryJobQueue))]
        else [WriteFile (FileOutput g) (fileSummarize e fileSummaryJobQueue) 384,
              Println (Text (''results written to '' @ FileOutput g))]),
       Inr (g1\<lparr>Complexity := Complexity g \<and> \<not> More g,
               DirFilePaths := (if DirFilePaths g = [] then [''.''] else DirFilePaths g),
               SortBy := ToLower e (SortBy g)\<rparr>))"
    by blast
  show ?thesis
    unfolding run using prints assms(2) by simp
qed

theorem C10_empty_paths_default_to_dot_witness:
  "\<not> Languages (initial (sampleEnv [(''Go'', sampleLanguage)]))
   \<and> DirFilePaths (initial (sampleEnv [(''Go'', sampleLanguage)])) = []
   \<and> loadDatabase (sampleEnv [(''Go'', sampleLanguage)])
        (initial (sampleEnv [(''Go'', sampleLanguage)])) = ([], Inr [(''Go'', sampleLanguage)])
   \<and> tokensNonEmpty sampleLanguage
   \<and> filter isWalk (fst (Process (sampleEnv [(''Go'', sampleLanguage)])
                             (initial (sampleEnv [(''Go'', sampleLanguage)]))))
       = [GoWalkDirectoryParallel ''.'' fileListQueue]
   \<and> (case snd (Process (sampleEnv [(''Go'', sampleLanguage)])
                   (initial (sampleEnv [(''Go'', sampleLanguage)]))) of
        Inl p \<Rightarrow> False | Inr g' \<Rightarrow> DirFilePaths g' = [''.''])"
  using C10_empty_paths_default_to_dot
    [of "initial (sampleEnv [(''Go'', sampleLanguage)])" "sampleEnv [(''Go'', sampleLanguage)]"
        "[]" "[(''Go'', sampleLanguage)]"]
  by (auto simp: initial_def sampleEnv_def allocates_def loadDatabase_def tokensNonEmpty_def sampleLanguage_def)

end
